theory Spec2Isabelle
  imports Complex_Main
begin

unbundle bit_operations_syntax

section \<open>Face attendance (facedetect/attendance.py)\<close>

text \<open>
  The module is embedded function by function. Everything the Python code obtains from
  its collaborators (the face model, the camera, the clock, the remote service, the
  keyboard) is an explicit input of the model; everything it does to them (rows appended
  to the attendance file, requests posted, log lines, camera calls, sleeps) is recorded
  in an explicit state that every function returns updated.

  Numbers: a float64 value is a real number, an infinity or \<open>nan\<close>. What numpy's
  float64 operations return (rounding, overflow, the order of a summation) is not fixed
  here: the arithmetic is a parameter \<open>ar\<close> of the model, and what is proved for every
  \<open>ar\<close> holds for numpy's. \<open>exact\<close> is the arithmetic without rounding, the reading
  under which the formula of the distance is the one of the specification.
\<close>

subsection \<open>Configuration\<close>

definition DATASET_PATH :: string where
  "DATASET_PATH = ''backend/uploads''"

text \<open>
  The literal \<open>0.4\<close>. As a float64 it is the value nearest to 4/10, slightly above it,
  and no float64 value lies between the two: a float64 value is less than the one if and
  only if it is less than the other.
\<close>

definition DISTANCE_THRESHOLD :: real where
  "DISTANCE_THRESHOLD = 4 / 10"

subsection \<open>Exceptions and results\<close>

text \<open>
  \<open>except Exception\<close> catches every exception but those deriving from
  \<open>BaseException\<close> only; of these the program meets \<open>KeyboardInterrupt\<close>. The string
  of \<open>Exception\<close> is \<open>str(e)\<close>.
\<close>

datatype exn = KeyboardInterrupt | Exception string

text \<open>
  A call either returns a value, raises, or never returns (\<open>Blocks\<close>: a
  \<open>requests.post\<close> without timeout to a remote that never answers).
\<close>

datatype 'a res = Returns 'a | Raises exn | Blocks

subsection \<open>Floats and embeddings\<close>

datatype npfloat = Num real | PosInf | NegInf | NaN

text \<open>
  Python's \<open><\<close> on floats: the order of the numbers, with the infinities at its ends;
  every comparison with \<open>nan\<close> is false.
\<close>

fun fl_less :: "npfloat \<Rightarrow> npfloat \<Rightarrow> bool" where
  "fl_less (Num x) (Num y) = (x < y)"
| "fl_less (Num x) PosInf = True"
| "fl_less NegInf (Num y) = True"
| "fl_less NegInf PosInf = True"
| "fl_less _ _ = False"

type_synonym embedding = "real list"

text \<open>
  The float64 operations that \<open>cosine_distance\<close> uses: \<open>np.dot\<close> and
  \<open>np.linalg.norm\<close> on one-dimensional sequences (of the same length, for \<open>np.dot\<close>),
  and the product, the quotient and the difference of two float64 values.
\<close>

record arith =
  fl_dot :: "embedding \<Rightarrow> embedding \<Rightarrow> npfloat"
  fl_norm :: "embedding \<Rightarrow> npfloat"
  fl_mul :: "npfloat \<Rightarrow> npfloat \<Rightarrow> npfloat"
  fl_div :: "npfloat \<Rightarrow> npfloat \<Rightarrow> npfloat"
  fl_sub :: "npfloat \<Rightarrow> npfloat \<Rightarrow> npfloat"

text \<open>
  \<open>cosine_distance(a, b) = 1 - np.dot(a, b) / (np.linalg.norm(a) * np.linalg.norm(b))\<close>.
  \<open>np.dot\<close> raises \<open>ValueError\<close> when the lengths differ. The operations on numpy
  scalars raise nothing: a division by zero gives an infinity or \<open>nan\<close> (with a
  warning).
\<close>

definition cosine_distance :: "arith \<Rightarrow> embedding \<Rightarrow> embedding \<Rightarrow> exn + npfloat" where
  "cosine_distance ar a b =
     (if length a \<noteq> length b then Inl (Exception ''shapes not aligned'')
      else Inr (fl_sub ar (Num 1)
                  (fl_div ar (fl_dot ar a b) (fl_mul ar (fl_norm ar a) (fl_norm ar b)))))"

subsection \<open>Arithmetic without rounding\<close>

text \<open>The dot product and the Euclidean norm on the reals.\<close>

definition np_dot :: "embedding \<Rightarrow> embedding \<Rightarrow> real" where
  "np_dot a b = sum_list (map2 (*) a b)"

definition linalg_norm :: "embedding \<Rightarrow> real" where
  "linalg_norm a = sqrt (sum_list (map (\<lambda>x. x * x) a))"

text \<open>
  Product, quotient and difference: exact on numbers, and as IEEE 754 has them where an
  infinity, a \<open>nan\<close> or a zero divisor is involved (a zero counts as positive).
\<close>

fun fl_sign :: "npfloat \<Rightarrow> real" where
  "fl_sign (Num x) = sgn x"
| "fl_sign PosInf = 1"
| "fl_sign NegInf = - 1"
| "fl_sign NaN = 0"

definition signed_inf :: "real \<Rightarrow> npfloat" where
  "signed_inf s = (if s < 0 then NegInf else PosInf)"

fun exact_mul :: "npfloat \<Rightarrow> npfloat \<Rightarrow> npfloat" where
  "exact_mul (Num x) (Num y) = Num (x * y)"
| "exact_mul NaN y = NaN"
| "exact_mul x NaN = NaN"
| "exact_mul x y =
     (if fl_sign x * fl_sign y = 0 then NaN else signed_inf (fl_sign x * fl_sign y))"

fun exact_div :: "npfloat \<Rightarrow> npfloat \<Rightarrow> npfloat" where
  "exact_div (Num x) (Num y) =
     (if y \<noteq> 0 then Num (x / y) else if x = 0 then NaN else signed_inf x)"
| "exact_div NaN y = NaN"
| "exact_div x NaN = NaN"
| "exact_div (Num x) y = Num 0"
| "exact_div x (Num y) = signed_inf (fl_sign x * (if y < 0 then - 1 else 1))"
| "exact_div x y = NaN"

fun exact_sub :: "npfloat \<Rightarrow> npfloat \<Rightarrow> npfloat" where
  "exact_sub (Num x) (Num y) = Num (x - y)"
| "exact_sub NaN y = NaN"
| "exact_sub x NaN = NaN"
| "exact_sub (Num x) PosInf = NegInf"
| "exact_sub (Num x) NegInf = PosInf"
| "exact_sub PosInf PosInf = NaN"
| "exact_sub NegInf NegInf = NaN"
| "exact_sub PosInf y = PosInf"
| "exact_sub NegInf y = NegInf"

definition exact :: arith where
  "exact = \<lparr>fl_dot = (\<lambda>a b. Num (np_dot a b)), fl_norm = (\<lambda>a. Num (linalg_norm a)),
            fl_mul = exact_mul, fl_div = exact_div, fl_sub = exact_sub\<rparr>"

text \<open>The formula of the specification, on the reals.\<close>

definition spec_cosine_distance :: "embedding \<Rightarrow> embedding \<Rightarrow> real" where
  "spec_cosine_distance a b = 1 - np_dot a b / (linalg_norm a * linalg_norm b)"

subsection \<open>The matcher (process_frame, lines 122 to 129)\<close>

text \<open>
  \<open>distances = [cosine_distance(face_encoding, known) for known in known_faces]\<close>:
  the comprehension stops at the first call that raises.
\<close>

fun distances_of :: "arith \<Rightarrow> embedding \<Rightarrow> embedding list \<Rightarrow> exn + npfloat list" where
  "distances_of ar face_encoding [] = Inr []"
| "distances_of ar face_encoding (known # rest) =
     (case cosine_distance ar face_encoding known of
        Inl e \<Rightarrow> Inl e
      | Inr d \<Rightarrow> (case distances_of ar face_encoding rest of
                    Inl e \<Rightarrow> Inl e
                  | Inr ds \<Rightarrow> Inr (d # ds)))"

text \<open>
  Python's \<open>min\<close>: the first element is the candidate, and a later element replaces it
  only when it compares strictly less. \<open>min([])\<close> raises \<open>ValueError\<close>.
\<close>

fun min_from :: "npfloat \<Rightarrow> npfloat list \<Rightarrow> npfloat" where
  "min_from best [] = best"
| "min_from best (item # rest) = min_from (if fl_less item best then item else best) rest"

definition py_min :: "npfloat list \<Rightarrow> exn + npfloat" where
  "py_min xs = (case xs of
                  [] \<Rightarrow> Inl (Exception ''min() arg is an empty sequence'')
                | x # rest \<Rightarrow> Inr (min_from x rest))"

text \<open>
  \<open>list.index\<close>: the first position whose element is the argument (the same object, or
  equal to it); \<open>ValueError\<close> when there is none. The argument here is the object that
  \<open>min\<close> returned. When that is a number, object identity adds nothing to \<open>==\<close>. When
  it is \<open>nan\<close>, it is the object at position 0 (lemma \<open>min_from_least\<close>), which
  \<open>index\<close> finds by identity at position 0: the position that HOL's equality on
  \<open>npfloat\<close> gives as well.
\<close>

fun py_index :: "npfloat list \<Rightarrow> npfloat \<Rightarrow> exn + nat" where
  "py_index [] v = Inl (Exception ''value is not in list'')"
| "py_index (x # xs) v =
     (if x = v then Inr 0
      else (case py_index xs v of Inl e \<Rightarrow> Inl e | Inr i \<Rightarrow> Inr (Suc i)))"

text \<open>\<open>student_names[best_match_index]\<close> with a non-negative index.\<close>

definition py_nth :: "'a list \<Rightarrow> nat \<Rightarrow> exn + 'a" where
  "py_nth xs i = (if i < length xs then Inr (xs ! i)
                  else Inl (Exception ''list index out of range''))"

text \<open>
  The name that \<open>process_frame\<close> gives to one detected face: the body of its loop from
  the computation of the distances to the choice between a student's name and
  \<open>"Unknown"\<close>.
\<close>

definition match_face :: "arith \<Rightarrow> embedding \<Rightarrow> embedding list \<Rightarrow> string list \<Rightarrow> exn + string" where
  "match_face ar face_encoding known_faces student_names =
     (case distances_of ar face_encoding known_faces of
        Inl e \<Rightarrow> Inl e
      | Inr distances \<Rightarrow>
          (case py_min distances of
             Inl e \<Rightarrow> Inl e
           | Inr min_distance \<Rightarrow>
               (case py_index distances min_distance of
                  Inl e \<Rightarrow> Inl e
                | Inr best_match_index \<Rightarrow>
                    if fl_less min_distance (Num DISTANCE_THRESHOLD)
                    then py_nth student_names best_match_index
                    else Inr ''Unknown'')))"

subsection \<open>Strings\<close>

text \<open>\<open>str(n)\<close> for an integer: decimal digits, with a minus sign when negative.\<close>

definition digit_char :: "nat \<Rightarrow> char" where
  "digit_char d = ''0123456789'' ! d"

function str_nat :: "nat \<Rightarrow> string" where
  "str_nat n = (if n < 10 then [digit_char n] else str_nat (n div 10) @ [digit_char (n mod 10)])"
  by pat_completeness auto
termination
  by (relation "measure (\<lambda>n. n)") auto

declare str_nat.simps [simp del]

definition str_int :: "int \<Rightarrow> string" where
  "str_int i = (if i < 0 then CHR ''-'' # str_nat (nat (- i)) else str_nat (nat i))"

text \<open>\<open>s.endswith(suffix)\<close>, and \<open>s.endswith((".jpg", ".png", ".jpeg"))\<close>.\<close>

definition endswith :: "string \<Rightarrow> string \<Rightarrow> bool" where
  "endswith s suffix =
     (length suffix \<le> length s \<and> drop (length s - length suffix) s = suffix)"

definition is_image_name :: "string \<Rightarrow> bool" where
  "is_image_name filename =
     (endswith filename ''.jpg'' \<or> endswith filename ''.png'' \<or> endswith filename ''.jpeg'')"

text \<open>\<open>p.rfind(c)\<close>: the last position of a character, \<open>-1\<close> when it does not occur.\<close>

fun rfind_from :: "char \<Rightarrow> string \<Rightarrow> int \<Rightarrow> int \<Rightarrow> int" where
  "rfind_from c [] i found = found"
| "rfind_from c (x # xs) i found = rfind_from c xs (i + 1) (if x = c then i else found)"

definition rfind :: "char \<Rightarrow> string \<Rightarrow> int" where
  "rfind c p = rfind_from c p 0 (- 1)"

text \<open>
  \<open>os.path.splitext\<close> (POSIX): the extension starts at the last dot of the last path
  component, unless only dots precede it there. The library's loop over the positions
  from \<open>sepIndex + 1\<close> up to \<open>dotIndex\<close>, looking for a character other than a dot, is
  the \<open>list_ex\<close> over that slice.
\<close>

definition splitext :: "string \<Rightarrow> string \<times> string" where
  "splitext p =
     (let sepIndex = rfind (CHR ''/'') p;
          dotIndex = rfind (CHR ''.'') p
      in if dotIndex > sepIndex \<and>
            list_ex (\<lambda>c. c \<noteq> CHR ''.'')
              (take (nat dotIndex - nat (sepIndex + 1)) (drop (nat (sepIndex + 1)) p))
         then (take (nat dotIndex) p, drop (nat dotIndex) p)
         else (p, []))"

subsection \<open>The state the program acts on\<close>

datatype level = INFO | WARNING | ERROR

datatype json_value = JStr string | JInt int

text \<open>
  A call of \<open>requests.post\<close>: the URL, the \<open>json\<close> dictionary in the order written,
  and the \<open>timeout\<close> argument (\<open>None\<close> when the call passes none).
\<close>

record request =
  url :: string
  json :: "(string \<times> json_value) list"
  timeout :: "real option"

text \<open>
  Calls to the capture source and to \<open>time.sleep\<close>, in the order made. A camera call is
  tagged with the class period current when it is made.
\<close>

datatype event =
    CameraOpened int
  | CameraFailed int
  | CameraReleased
  | Slept nat

text \<open>
  \<open>attendance_set\<close> is the set object that \<open>main\<close> creates and hands to
  \<open>process_frame\<close> and \<open>mark_attendance\<close>, which update it in place. \<open>files\<close> maps
  a path to the rows of the CSV file there. The file system is taken to accept every
  write.
\<close>

record state =
  attendance_set :: "string set"
  files :: "string \<rightharpoonup> string list list"
  posts :: "request list"
  log :: "(level \<times> string) list"
  trace :: "event list"

definition logging :: "level \<Rightarrow> string \<Rightarrow> state \<Rightarrow> state" where
  "logging lv msg s = s\<lparr>log := log s @ [(lv, msg)]\<rparr>"

definition record_event :: "event \<Rightarrow> state \<Rightarrow> state" where
  "record_event ev s = s\<lparr>trace := trace s @ [ev]\<rparr>"

text \<open>\<open>open(path, "a")\<close> followed by one \<open>writerow\<close>; a missing file is created.\<close>

definition append_row :: "string \<Rightarrow> string list \<Rightarrow> state \<Rightarrow> state" where
  "append_row path row s =
     s\<lparr>files := (files s)(path \<mapsto> (case files s path of None \<Rightarrow> [] | Some rows \<Rightarrow> rows) @ [row])\<rparr>"

subsection \<open>The remote service\<close>

text \<open>
  What the remote does with one request: it answers with a status code and a body, the
  call fails with an exception, or no answer ever comes. \<open>requests.post\<close> waits for the
  answer without limit unless a timeout is passed, in which case it raises instead.
\<close>

datatype remote = Responds int string | Fails exn | Silent

definition requests_post :: "request \<Rightarrow> remote \<Rightarrow> (int \<times> string) res" where
  "requests_post req r =
     (case r of
        Responds status_code text \<Rightarrow> Returns (status_code, text)
      | Fails e \<Rightarrow> Raises e
      | Silent \<Rightarrow> (case timeout req of
                    None \<Rightarrow> Blocks
                  | Some t \<Rightarrow> Raises (Exception ''Read timed out'')))"

subsection \<open>mark_attendance\<close>

text \<open>
  What one call of \<open>mark_attendance\<close> that passes the membership test reads from the
  world: the clock (\<open>datetime.now().strftime("%H:%M:%S")\<close>) and the remote's behaviour.
\<close>

record mark_env =
  now :: string
  remote :: remote

definition attendance_row :: "string \<Rightarrow> string \<Rightarrow> string \<Rightarrow> int \<Rightarrow> string list" where
  "attendance_row rollNumber date_today time_str classPeriod =
     [rollNumber, date_today, time_str, ''Present'', ''Class '' @ str_int classPeriod]"

definition attendance_request :: "string \<Rightarrow> string \<Rightarrow> string \<Rightarrow> int \<Rightarrow> request" where
  "attendance_request rollNumber date_today time_str classPeriod =
     \<lparr>url = ''http://localhost:5000/api/attendance/mark'',
      json = [(''rollNumber'', JStr rollNumber), (''date'', JStr date_today),
              (''time'', JStr time_str), (''status'', JStr ''present''),
              (''classPeriod'', JInt classPeriod)],
      timeout = None\<rparr>"

definition mark_attendance ::
  "string \<Rightarrow> string \<Rightarrow> string \<Rightarrow> int \<Rightarrow> mark_env \<Rightarrow> state \<Rightarrow> unit res \<times> state" where
  "mark_attendance rollNumber date_today attendance_file classPeriod env s =
     (if rollNumber \<notin> attendance_set s then
        (let time_str = now env;
             s1 = append_row attendance_file
                    (attendance_row rollNumber date_today time_str classPeriod) s;
             s2 = s1\<lparr>attendance_set := insert rollNumber (attendance_set s1)\<rparr>;
             s3 = logging INFO (''Marked '' @ rollNumber @ '' as Present in Class ''
                    @ str_int classPeriod @ '' at '' @ time_str) s2;
             req = attendance_request rollNumber date_today time_str classPeriod;
             s4 = s3\<lparr>posts := posts s3 @ [req]\<rparr>
         in (case requests_post req (remote env) of
               Returns (status_code, text) \<Rightarrow>
                 if status_code = 200
                 then (Returns (), logging INFO (''Sent attendance for '' @ rollNumber
                         @ '' (Class '' @ str_int classPeriod @ '') to backend'') s4)
                 else (Returns (), logging WARNING (''Failed to send attendance for ''
                         @ rollNumber @ '' (Class '' @ str_int classPeriod @ ''): '' @ text) s4)
             | Raises (Exception msg) \<Rightarrow>
                 (Returns (), logging ERROR (''Error sending attendance to backend: '' @ msg) s4)
             | Raises KeyboardInterrupt \<Rightarrow> (Raises KeyboardInterrupt, s4)
             | Blocks \<Rightarrow> (Blocks, s4)))
      else (Returns (), s))"

subsection \<open>process_frame\<close>

text \<open>
  One entry of the list that \<open>DeepFace.represent\<close> returns. Frames are opaque: resizing,
  colour conversion and the drawing of boxes and labels are not modelled.
\<close>

record face =
  embedding :: embedding
  facial_area :: "int \<times> int \<times> int \<times> int"

text \<open>
  The loop over the detected faces, inside the \<open>try\<close>. Each face comes with what
  \<open>mark_attendance\<close> would read from the world if it is called for that face.
\<close>

fun faces_loop ::
  "arith \<Rightarrow> (face \<times> mark_env) list \<Rightarrow> embedding list \<Rightarrow> string list \<Rightarrow> string \<Rightarrow> string \<Rightarrow> int
     \<Rightarrow> state \<Rightarrow> unit res \<times> state" where
  "faces_loop ar [] known_faces student_names attendance_file date_today classPeriod s =
     (Returns (), s)"
| "faces_loop ar ((result, env) # rest) known_faces student_names attendance_file date_today
     classPeriod s =
     (case match_face ar (embedding result) known_faces student_names of
        Inl e \<Rightarrow> (Raises e, s)
      | Inr name \<Rightarrow>
          if name \<noteq> ''Unknown'' then
            (case mark_attendance name date_today attendance_file classPeriod env s of
               (Returns u, s1) \<Rightarrow>
                 faces_loop ar rest known_faces student_names attendance_file date_today
                   classPeriod s1
             | (Raises e, s1) \<Rightarrow> (Raises e, s1)
             | (Blocks, s1) \<Rightarrow> (Blocks, s1))
          else faces_loop ar rest known_faces student_names attendance_file date_today
                 classPeriod s)"

text \<open>
  The first argument is the outcome of \<open>DeepFace.represent\<close> on the frame. The
  \<open>except Exception\<close> clause logs and lets the function return; a
  \<open>KeyboardInterrupt\<close> passes through it.
\<close>

definition process_frame ::
  "arith \<Rightarrow> exn + (face \<times> mark_env) list \<Rightarrow> embedding list \<Rightarrow> string list \<Rightarrow> string \<Rightarrow> string \<Rightarrow> int
     \<Rightarrow> state \<Rightarrow> unit res \<times> state" where
  "process_frame ar detected known_faces student_names attendance_file date_today classPeriod s =
     (case detected of
        Inl KeyboardInterrupt \<Rightarrow> (Raises KeyboardInterrupt, s)
      | Inl (Exception msg) \<Rightarrow> (Returns (), logging ERROR (''Error processing frame: '' @ msg) s)
      | Inr results \<Rightarrow>
          if results = [] then (Returns (), s)
          else (case faces_loop ar results known_faces student_names attendance_file date_today
                       classPeriod s of
                  (Raises (Exception msg), s1) \<Rightarrow>
                    (Returns (), logging ERROR (''Error processing frame: '' @ msg) s1)
                | other \<Rightarrow> other))"

subsection \<open>load_known_faces\<close>

text \<open>
  The loop over \<open>os.listdir(dataset_path)\<close>. Each file name comes with the outcome of
  \<open>DeepFace.represent\<close> on that file (not consulted for a name without an image
  extension).
\<close>

fun load_loop ::
  "(string \<times> (exn + face list)) list \<Rightarrow> embedding list \<Rightarrow> string list \<Rightarrow> state
     \<Rightarrow> (embedding list \<times> string list) res \<times> state" where
  "load_loop [] known_faces student_names s = (Returns (known_faces, student_names), s)"
| "load_loop ((filename, represented) # rest) known_faces student_names s =
     (if is_image_name filename then
        (case represented of
           Inl KeyboardInterrupt \<Rightarrow> (Raises KeyboardInterrupt, s)
         | Inl (Exception msg) \<Rightarrow>
             load_loop rest known_faces student_names
               (logging ERROR (''Error processing '' @ filename @ '': '' @ msg) s)
         | Inr [] \<Rightarrow>
             load_loop rest known_faces student_names
               (logging WARNING (''No face detected in '' @ filename) s)
         | Inr (r # _) \<Rightarrow>
             load_loop rest (known_faces @ [embedding r])
               (student_names @ [fst (splitext filename)])
               (logging INFO (''Loaded face for '' @ fst (splitext filename)) s))
      else load_loop rest known_faces student_names s)"

text \<open>
  The argument is what is at \<open>dataset_path\<close>: \<open>None\<close> when the path does not exist,
  the directory listing otherwise.
\<close>

definition load_known_faces ::
  "(string \<times> (exn + face list)) list option \<Rightarrow> string \<Rightarrow> state
     \<Rightarrow> (embedding list \<times> string list) res \<times> state" where
  "load_known_faces directory dataset_path s =
     (case directory of
        None \<Rightarrow>
          (Returns ([], []),
           logging ERROR (''Dataset path '' @ dataset_path @ '' does not exist'') s)
      | Some listing \<Rightarrow>
          (case load_loop listing [] [] s of
             (Returns (known_faces, student_names), s1) \<Rightarrow>
               (Returns (known_faces, student_names),
                logging INFO (''Loaded '' @ str_int (int (length student_names))
                  @ '' students from dataset'') s1)
           | other \<Rightarrow> other))"

subsection \<open>initialize_attendance\<close>

definition initialize_attendance :: "string \<Rightarrow> state \<Rightarrow> string \<times> state" where
  "initialize_attendance date_today s =
     (let attendance_file = ''attendance_'' @ date_today @ ''.csv''
      in if files s attendance_file = None
         then (attendance_file,
               logging INFO (''Created new attendance file: '' @ attendance_file)
                 (s\<lparr>files := (files s)(attendance_file \<mapsto>
                      [[''Name'', ''Date'', ''Time'', ''Status'', ''Class Period'']])\<rparr>))
         else (attendance_file, s))"

subsection \<open>main\<close>

text \<open>
  One iteration of the inner \<open>while True\<close>: \<open>cap.read()\<close> gives no frame, or raises, or
  gives a frame; with a frame come the outcome of \<open>DeepFace.represent\<close> on it, the
  outcome of \<open>cv2.imshow\<close> and \<open>cv2.waitKey(1)\<close> (the key code, or an exception), and
  the reading of \<open>time.time() - start_time\<close>. Exceptions and interrupts are modelled
  at these calls and at the forwarding call, all inside the inner \<open>try\<close> statement;
  the calls outside it (opening the camera, \<open>time.sleep\<close>) are taken to return.
\<close>

record frame_env =
  detect :: "exn + (face \<times> mark_env) list"
  ui :: "exn + int"
  elapsed :: real

datatype iteration = NoFrame | ReadRaises exn | Frame frame_env

text \<open>
  How the inner loop is left: \<open>break\<close>, \<open>return\<close>, an exception, a call that never
  returns, or (\<open>NoInput\<close>) the given iterations are used up before the loop is left.
\<close>

datatype loop_exit = Break | Return | Propagate exn | Hang | NoInput

fun active_loop ::
  "arith \<Rightarrow> iteration list \<Rightarrow> embedding list \<Rightarrow> string list \<Rightarrow> string \<Rightarrow> string \<Rightarrow> int \<Rightarrow> state
     \<Rightarrow> loop_exit \<times> state" where
  "active_loop ar [] known_faces student_names attendance_file date_today class_period s =
     (NoInput, s)"
| "active_loop ar (NoFrame # rest) known_faces student_names attendance_file date_today
     class_period s =
     (Break, logging ERROR ''Unable to read frame from camera'' s)"
| "active_loop ar (ReadRaises e # rest) known_faces student_names attendance_file date_today
     class_period s =
     (Propagate e, s)"
| "active_loop ar (Frame f # rest) known_faces student_names attendance_file date_today
     class_period s =
     (case process_frame ar (detect f) known_faces student_names attendance_file date_today
             class_period s of
        (Raises e, s1) \<Rightarrow> (Propagate e, s1)
      | (Blocks, s1) \<Rightarrow> (Hang, s1)
      | (Returns u, s1) \<Rightarrow>
          (case ui f of
             Inl e \<Rightarrow> (Propagate e, s1)
           | Inr key \<Rightarrow>
               if key AND 255 = 113 then (Return, s1)
               else if elapsed f > 60 then (Break, s1)
               else active_loop ar rest known_faces student_names attendance_file date_today
                      class_period s1))"

text \<open>
  How \<open>main\<close> ends: the outer loop ran to its end (\<open>Done\<close>), a \<open>return\<close> on the quit
  key or on a keyboard interrupt (\<open>Cancelled\<close>), the \<open>return\<close> on an empty gallery, an
  exception caught by the outer \<open>except Exception\<close> (\<open>Failed\<close>), an exception that
  leaves \<open>main\<close>, a call that never returns, or the given input is used up.
\<close>

datatype outcome =
    Done
  | Cancelled
  | NoGallery
  | Failed string
  | Uncaught exn
  | Hung
  | ScriptEnded

text \<open>
  One iteration of the outer loop: the camera cannot be opened, or it is opened and the
  inner loop runs on the given iterations.
\<close>

datatype cycle = CameraUnavailable | CameraAvailable "iteration list"

text \<open>
  The inner \<open>try\<close> statement of \<open>main\<close> (lines 227 to 249): the loop, the
  \<open>except KeyboardInterrupt\<close> clause, which logs and returns, and the \<open>finally\<close>
  clause, which releases the camera on every way out of the statement.
\<close>

definition active_phase ::
  "arith \<Rightarrow> iteration list \<Rightarrow> embedding list \<Rightarrow> string list \<Rightarrow> string \<Rightarrow> string \<Rightarrow> int \<Rightarrow> state
     \<Rightarrow> loop_exit \<times> state" where
  "active_phase ar its known_faces student_names attendance_file date_today class_period s =
     (case active_loop ar its known_faces student_names attendance_file date_today
             class_period s of
        (Break, s1) \<Rightarrow> (Break, record_event CameraReleased s1)
      | (Return, s1) \<Rightarrow> (Return, record_event CameraReleased s1)
      | (Propagate KeyboardInterrupt, s1) \<Rightarrow>
          (Return, record_event CameraReleased (logging INFO ''Interrupted by user'' s1))
      | (Propagate (Exception msg), s1) \<Rightarrow>
          (Propagate (Exception msg), record_event CameraReleased s1)
      | (Hang, s1) \<Rightarrow> (Hang, s1)
      | (NoInput, s1) \<Rightarrow> (NoInput, s1))"

text \<open>
  The pieces of one iteration of the outer loop. \<open>begin_cycle\<close> (lines 210 to 214)
  counts and logs the cycle and creates the fresh \<open>attendance_set\<close>;
  \<open>camera_unavailable\<close> (lines 220 and 221) logs and sleeps before the \<open>continue\<close>;
  \<open>camera_opened\<close> (lines 217 to 225) is the successful opening;
  \<open>end_cycle\<close> (lines 252 to 265) logs, sleeps and logs what comes next, given
  the period just completed.
\<close>

definition begin_cycle :: "int \<Rightarrow> nat \<Rightarrow> state \<Rightarrow> state" where
  "begin_cycle class_period cycle_count s =
     (logging INFO (''Starting cycle '' @ str_int (int cycle_count)
        @ '' - Class Period '' @ str_int class_period) s)\<lparr>attendance_set := {}\<rparr>"

definition camera_unavailable :: "int \<Rightarrow> state \<Rightarrow> state" where
  "camera_unavailable class_period s =
     record_event (Slept 60)
       (logging ERROR ''Unable to access camera feed''
          (record_event (CameraFailed class_period) s))"

definition camera_opened :: "int \<Rightarrow> state \<Rightarrow> state" where
  "camera_opened class_period s =
     logging INFO ''Running attendance for 1 minute.''
       (record_event (CameraOpened class_period) s)"

definition end_cycle :: "int \<Rightarrow> nat \<Rightarrow> state \<Rightarrow> state" where
  "end_cycle class_period cycle_count s =
     (let s1 = logging INFO (''Completed Class Period '' @ str_int class_period
                 @ '' attendance cycle '' @ str_int (int cycle_count)) s;
          s2 = logging INFO
                 ''Attendance data has been automatically saved and sent to backend.'' s1;
          s3 = logging INFO ''System stopped for 1 minute break...'' s2;
          s4 = record_event (Slept 10) s3
      in if class_period + 1 \<le> 6
         then logging INFO (''Restarting with Class Period '' @ str_int (class_period + 1)) s4
         else logging INFO ''Completed all 6 class periods. System will now close.'' s4)"

text \<open>
  What follows the inner \<open>try\<close> statement when it is not left by \<open>break\<close>: a
  \<open>return\<close> ends \<open>main\<close>, an exception goes to the outer \<open>try\<close>. (The
  equation for \<open>Break\<close> makes the function total; \<open>main_loop\<close> does not use it.)
\<close>

fun leave_main :: "loop_exit \<Rightarrow> outcome" where
  "leave_main Return = Cancelled"
| "leave_main (Propagate KeyboardInterrupt) = Uncaught KeyboardInterrupt"
| "leave_main (Propagate (Exception msg)) = Failed msg"
| "leave_main Hang = Hung"
| "leave_main NoInput = ScriptEnded"
| "leave_main Break = Done"

text \<open>The outer \<open>while class_period <= 6\<close>, one \<open>cycle\<close> of input per iteration.\<close>

fun main_loop ::
  "arith \<Rightarrow> cycle list \<Rightarrow> embedding list \<Rightarrow> string list \<Rightarrow> string \<Rightarrow> string \<Rightarrow> int \<Rightarrow> nat \<Rightarrow> state
     \<Rightarrow> outcome \<times> state" where
  "main_loop ar [] known_faces student_names attendance_file date_today class_period
     cycle_count s =
     (if class_period \<le> 6 then (ScriptEnded, s) else (Done, s))"
| "main_loop ar (CameraUnavailable # rest) known_faces student_names attendance_file date_today
     class_period cycle_count s =
     (if class_period \<le> 6 then
        main_loop ar rest known_faces student_names attendance_file date_today class_period
          (cycle_count + 1)
          (camera_unavailable class_period (begin_cycle class_period (cycle_count + 1) s))
      else (Done, s))"
| "main_loop ar (CameraAvailable its # rest) known_faces student_names attendance_file
     date_today class_period cycle_count s =
     (if class_period \<le> 6 then
        (let r = active_phase ar its known_faces student_names attendance_file date_today
                   class_period
                   (camera_opened class_period
                      (begin_cycle class_period (cycle_count + 1) s))
         in if fst r = Break then
              main_loop ar rest known_faces student_names attendance_file date_today
                (class_period + 1) (cycle_count + 1)
                (end_cycle class_period (cycle_count + 1) (snd r))
            else (leave_main (fst r), snd r))
      else (Done, s))"

text \<open>What \<open>main\<close> reads from the world.\<close>

record main_env =
  dataset :: "(string \<times> (exn + face list)) list option"
  today :: string
  cycles :: "cycle list"

text \<open>
  The outer \<open>try\<close> statement around the loop: \<open>except Exception\<close> logs, and the
  \<open>finally\<close> clause logs on every way out.
\<close>

definition main_try ::
  "arith \<Rightarrow> cycle list \<Rightarrow> embedding list \<Rightarrow> string list \<Rightarrow> string \<Rightarrow> string \<Rightarrow> state
     \<Rightarrow> outcome \<times> state" where
  "main_try ar cs known_faces student_names attendance_file date_today s =
     (case main_loop ar cs known_faces student_names attendance_file date_today 1 0 s of
        (Hung, s1) \<Rightarrow> (Hung, s1)
      | (ScriptEnded, s1) \<Rightarrow> (ScriptEnded, s1)
      | (Failed msg, s1) \<Rightarrow>
          (Failed msg,
           logging INFO ''All class periods (1-6) have been completed.''
             (logging INFO ''Face attendance system stopped.''
                (logging ERROR (''Error in main loop: '' @ msg) s1)))
      | (r, s1) \<Rightarrow>
          (r, logging INFO ''All class periods (1-6) have been completed.''
                (logging INFO ''Face attendance system stopped.'' s1)))"

definition main :: "arith \<Rightarrow> main_env \<Rightarrow> state \<Rightarrow> outcome \<times> state" where
  "main ar env s =
     (case load_known_faces (dataset env) DATASET_PATH s of
        (Raises e, s1) \<Rightarrow> (Uncaught e, s1)
      | (Blocks, s1) \<Rightarrow> (Hung, s1)
      | (Returns (known_faces, student_names), s1) \<Rightarrow>
          if known_faces = [] then (NoGallery, logging ERROR ''No known faces loaded. Exiting.'' s1)
          else
            (let date_today = today env;
                 (attendance_file, s2) = initialize_attendance date_today s1;
                 s3 = logging INFO
                        ''Starting continuous face attendance system with automatic restart.'' s2;
                 s4 = logging INFO ''System will cycle through Class Periods 1 to 6.'' s3;
                 s5 = logging INFO
                        ''Each cycle: 1 minute active, 1 minute sleep, then automatic restart.'' s4;
                 s6 = logging INFO
                        ''System will automatically close after completing all 6 class periods.''
                        s5;
                 s7 = logging INFO ''Press 'q' to quit.'' s6
             in main_try ar (cycles env) known_faces student_names attendance_file date_today s7))"

subsection \<open>Notions used to state the properties\<close>

text \<open>The state at the start of a run on an empty file system.\<close>

definition start_state :: state where
  "start_state = \<lparr>attendance_set = {}, files = Map.empty, posts = [], log = [], trace = []\<rparr>"

text \<open>The rows of a file, none when the file does not exist.\<close>

definition rows_of :: "state \<Rightarrow> string \<Rightarrow> string list list" where
  "rows_of s path = (case files s path of None \<Rightarrow> [] | Some rows \<Rightarrow> rows)"

text \<open>
  Successive calls of \<open>mark_attendance\<close> for one identity within one period, one
  \<open>mark_env\<close> per call; a call that does not return ends the sequence.
\<close>

fun mark_times ::
  "string \<Rightarrow> string \<Rightarrow> string \<Rightarrow> int \<Rightarrow> mark_env list \<Rightarrow> state \<Rightarrow> unit res \<times> state" where
  "mark_times rollNumber date_today attendance_file classPeriod [] s = (Returns (), s)"
| "mark_times rollNumber date_today attendance_file classPeriod (env # envs) s =
     (case mark_attendance rollNumber date_today attendance_file classPeriod env s of
        (Returns u, s1) \<Rightarrow> mark_times rollNumber date_today attendance_file classPeriod envs s1
      | other \<Rightarrow> other)"

text \<open>Two states that differ in their logs at most.\<close>

definition same_records :: "state \<Rightarrow> state \<Rightarrow> bool" where
  "same_records s t =
     (attendance_set s = attendance_set t \<and> files s = files t \<and> posts s = posts t \<and>
      trace s = trace t)"

text \<open>The class periods in which the camera was opened, in the order of opening.\<close>

fun opened_periods :: "event list \<Rightarrow> int list" where
  "opened_periods [] = []"
| "opened_periods (CameraOpened p # evs) = p # opened_periods evs"
| "opened_periods (ev # evs) = opened_periods evs"

text \<open>
  Every opening of the camera is followed by its release before anything else happens
  (a sleep, a further camera call, the end of the run), and nothing is released that was
  not opened.
\<close>

fun released_after_open :: "event list \<Rightarrow> bool" where
  "released_after_open [] = True"
| "released_after_open (CameraOpened p # CameraReleased # evs) = released_after_open evs"
| "released_after_open (CameraOpened p # evs) = False"
| "released_after_open (CameraReleased # evs) = False"
| "released_after_open (ev # evs) = released_after_open evs"

text \<open>
  Input on which nothing but the clock ends a period. A detection is quiet when the model
  is not interrupted and no forwarding call is interrupted or left without answer; the
  iterations of a period are quiet when, up to and including the first one whose clock
  reading exceeds 60 seconds, every read gives a frame, every detection is quiet and
  every key read is not \<open>q\<close>.
\<close>

fun quiet_remote :: "remote \<Rightarrow> bool" where
  "quiet_remote (Responds status_code text) = True"
| "quiet_remote (Fails (Exception msg)) = True"
| "quiet_remote (Fails KeyboardInterrupt) = False"
| "quiet_remote Silent = False"

fun quiet_detect :: "exn + (face \<times> mark_env) list \<Rightarrow> bool" where
  "quiet_detect (Inl KeyboardInterrupt) = False"
| "quiet_detect (Inl (Exception msg)) = True"
| "quiet_detect (Inr results) = list_all (\<lambda>(result, env). quiet_remote (remote env)) results"

fun quiet_frames :: "iteration list \<Rightarrow> bool" where
  "quiet_frames [] = False"
| "quiet_frames (NoFrame # rest) = False"
| "quiet_frames (ReadRaises e # rest) = False"
| "quiet_frames (Frame f # rest) =
     (quiet_detect (detect f) \<and>
      (case ui f of
         Inl e \<Rightarrow> False
       | Inr key \<Rightarrow> key AND 255 \<noteq> 113 \<and> (elapsed f > 60 \<or> quiet_frames rest)))"

fun quiet_cycle :: "cycle \<Rightarrow> bool" where
  "quiet_cycle CameraUnavailable = False"
| "quiet_cycle (CameraAvailable its) = quiet_frames its"



section \<open>Properties\<close>

subsection \<open>Cosine distance\<close>

lemma np_dot_commute: "np_dot a b = np_dot b a"
proof -
  have "map2 (*) a b = map2 (*) b a" for a b :: "real list"
    by (induction a arbitrary: b) (auto simp: zip_Cons1 split: list.splits)
  then show ?thesis by (simp add: np_dot_def)
qed

lemma np_dot_self: "np_dot a a = sum_list (map (\<lambda>x. x * x) a)"
  by (induction a) (auto simp: np_dot_def)

lemma sum_squares_nonneg: "0 \<le> sum_list (map (\<lambda>x. x * x) (a::real list))"
  by (induction a) auto

lemma linalg_norm_square: "linalg_norm a * linalg_norm a = np_dot a a"
  by (simp add: linalg_norm_def np_dot_self sum_squares_nonneg)

lemma sum_squares_zero:
  "sum_list (map (\<lambda>x. x * x) (a::real list)) = 0 \<Longrightarrow> \<forall>x \<in> set a. x = 0"
proof (induction a)
  case Nil
  then show ?case by simp
next
  case (Cons x a)
  have "0 \<le> x * x" by simp
  moreover have "0 \<le> sum_list (map (\<lambda>x. x * x) a)" by (rule sum_squares_nonneg)
  ultimately have "x * x = 0" "sum_list (map (\<lambda>x. x * x) a) = 0"
    using Cons.prems by (auto simp: add_nonneg_eq_0_iff)
  then show ?case using Cons.IH by simp
qed

lemma np_dot_zero_left: "\<forall>x \<in> set a. x = 0 \<Longrightarrow> np_dot a b = 0"
  unfolding np_dot_def
  by (induction a arbitrary: b) (auto simp: zip_Cons1 split: list.splits)

text \<open>
  Without rounding, the division in \<open>cosine_distance\<close> has a zero divisor only as
  \<open>0/0\<close>: the distance is a number or \<open>nan\<close>, never an infinity.
\<close>

lemma np_dot_zero_norm: "linalg_norm a * linalg_norm b = 0 \<Longrightarrow> np_dot a b = 0"
proof -
  assume "linalg_norm a * linalg_norm b = 0"
  then consider "linalg_norm a = 0" | "linalg_norm b = 0" by auto
  then show ?thesis
  proof cases
    case 1
    then have "\<forall>x \<in> set a. x = 0"
      by (auto simp: linalg_norm_def dest!: sum_squares_zero)
    then show ?thesis by (rule np_dot_zero_left)
  next
    case 2
    then have "\<forall>x \<in> set b. x = 0"
      by (auto simp: linalg_norm_def dest!: sum_squares_zero)
    then have "np_dot b a = 0" by (rule np_dot_zero_left)
    then show ?thesis by (simp add: np_dot_commute)
  qed
qed

lemma cosine_distance_exact:
  "cosine_distance exact a b =
     (if length a \<noteq> length b then Inl (Exception ''shapes not aligned'')
      else if linalg_norm a * linalg_norm b = 0 then Inr NaN
      else Inr (Num (1 - np_dot a b / (linalg_norm a * linalg_norm b))))"
proof (cases "linalg_norm a * linalg_norm b = 0")
  case True
  then have "np_dot a b = 0" by (rule np_dot_zero_norm)
  with True show ?thesis by (simp add: cosine_distance_def exact_def)
next
  case False
  then show ?thesis by (simp add: cosine_distance_def exact_def)
qed

text \<open>
  Claim C5. The cosine distance is symmetric: for all embeddings \<open>a\<close> and \<open>b\<close>,
  \<open>cosine_distance\<close> gives the same outcome for \<open>a\<close>, \<open>b\<close> and for \<open>b\<close>, \<open>a\<close>
  (the same number, or \<open>nan\<close> on both sides, or the same error on both sides); and the
  distance of an embedding of non-zero norm to itself is 0. The arithmetic is the one
  without rounding, so the tolerance of the claim is exact equality here.
\<close>

theorem cosine_distance_symmetric_self:
  "cosine_distance exact a b = cosine_distance exact b a \<and>
   (linalg_norm a \<noteq> 0 \<longrightarrow> cosine_distance exact a a = Inr (Num 0))"
proof
  show "cosine_distance exact a b = cosine_distance exact b a"
    by (simp add: cosine_distance_exact np_dot_commute mult.commute)
next
  show "linalg_norm a \<noteq> 0 \<longrightarrow> cosine_distance exact a a = Inr (Num 0)"
    by (simp add: cosine_distance_exact linalg_norm_square [symmetric])
qed

theorem cosine_distance_symmetric_self_witness:
  "cosine_distance exact [1, 0] [0, 1] = cosine_distance exact [0, 1] [1, 0] \<and>
   linalg_norm [1, 0] \<noteq> 0 \<and> cosine_distance exact [1, 0] [1, 0] = Inr (Num 0)"
  using cosine_distance_symmetric_self [of "[1, 0]" "[0, 1]"]
  by (simp add: linalg_norm_def)

text \<open>
  Symmetry needs no exactness: it holds in every arithmetic whose dot product and
  product are commutative, as those of float64 are.
\<close>

lemma cosine_distance_symmetric_float:
  assumes "\<And>a b. fl_dot ar a b = fl_dot ar b a" and "\<And>x y. fl_mul ar x y = fl_mul ar y x"
  shows "cosine_distance ar a b = cosine_distance ar b a"
  using assms(1) [of a b] assms(2) [of "fl_norm ar a" "fl_norm ar b"]
  by (simp add: cosine_distance_def)

subsection \<open>The matcher\<close>

lemma fl_less_NaN [simp]: "\<not> fl_less NaN x" "\<not> fl_less x NaN"
  by (cases x; simp)+

lemma fl_less_trans: "fl_less x y \<Longrightarrow> fl_less y z \<Longrightarrow> fl_less x z"
  by (cases x; cases y; cases z) simp_all

lemma fl_less_below: "fl_less x m \<Longrightarrow> \<not> fl_less y m \<Longrightarrow> y \<noteq> NaN \<Longrightarrow> fl_less x y"
  by (cases x; cases y; cases m) simp_all

text \<open>
  \<open>min\<close> on a list whose first element is not \<open>nan\<close>: the result is not \<open>nan\<close>, it
  is an element, and no element is less. On a list whose first element is \<open>nan\<close> the
  result is that first element.
\<close>

lemma min_from_least:
  "best \<noteq> NaN \<Longrightarrow>
   min_from best xs \<noteq> NaN \<and> min_from best xs \<in> set (best # xs) \<and>
   (\<forall>z \<in> set (best # xs). \<not> fl_less z (min_from best xs))"
proof (induction xs arbitrary: best)
  case Nil
  then show ?case by (cases best) simp_all
next
  case (Cons x xs)
  let ?b = "if fl_less x best then x else best"
  have b: "?b \<noteq> NaN" using Cons.prems by (cases x) auto
  from Cons.IH [OF b] have m: "min_from ?b xs \<noteq> NaN" "min_from ?b xs \<in> set (?b # xs)"
    "\<forall>z \<in> set (?b # xs). \<not> fl_less z (min_from ?b xs)" by blast+
  have "\<not> fl_less best (min_from ?b xs) \<and> \<not> fl_less x (min_from ?b xs)"
  proof (cases "fl_less x best")
    case True
    then have x: "\<not> fl_less x (min_from ?b xs)" using m(3) by simp
    with True show ?thesis by (blast intro: fl_less_trans)
  next
    case False
    then have y: "\<not> fl_less best (min_from ?b xs)" using m(3) by simp
    with False Cons.prems show ?thesis by (blast dest: fl_less_below)
  qed
  with m show ?case by (auto split: if_splits)
qed

lemma min_from_NaN_head: "min_from NaN xs = NaN"
  by (induction xs) simp_all

lemma py_index_first:
  "v \<in> set xs \<Longrightarrow>
   \<exists>i. py_index xs v = Inr i \<and> i < length xs \<and> xs ! i = v \<and> (\<forall>j < i. xs ! j \<noteq> v)"
proof (induction xs)
  case Nil
  then show ?case by simp
next
  case (Cons x xs)
  show ?case
  proof (cases "x = v")
    case True
    then show ?thesis by simp
  next
    case False
    with Cons obtain i where i: "py_index xs v = Inr i" "i < length xs"
      "xs ! i = v" "\<forall>j < i. xs ! j \<noteq> v" by auto
    have "\<forall>j < Suc i. (x # xs) ! j \<noteq> v"
      using False i(4) by (auto simp: nth_Cons split: nat.splits)
    with False i show ?thesis by auto
  qed
qed

lemma distances_of_nth:
  "distances_of ar probe known_faces = Inr ds \<Longrightarrow>
   length ds = length known_faces \<and>
   (\<forall>j < length known_faces. cosine_distance ar probe (known_faces ! j) = Inr (ds ! j))"
proof (induction known_faces arbitrary: ds)
  case Nil
  then show ?case by simp
next
  case (Cons k ks)
  from Cons.prems obtain d rest where d: "cosine_distance ar probe k = Inr d"
    "distances_of ar probe ks = Inr rest" "ds = d # rest"
    by (auto split: sum.splits)
  from Cons.IH [OF d(2)] d(1,3) show ?case
    by (auto simp: nth_Cons split: nat.splits)
qed

lemma distances_of_same_length:
  "\<forall>k \<in> set known_faces. length k = length probe \<Longrightarrow>
   \<exists>ds. distances_of ar probe known_faces = Inr ds"
  by (induction known_faces) (auto simp: cosine_distance_def)

text \<open>
  Claim C1, amended. Take any float64 arithmetic, a probe embedding and a non-empty
  gallery (a list of entries, each an identity with its embedding, handed to the code as
  the list of embeddings and the list of names) whose embeddings have the probe's length.
  The matcher computes the cosine distance from the probe to each entry (\<open>ds\<close>). If the
  distance to the first entry is \<open>nan\<close>, it returns \<open>"Unknown"\<close>. Otherwise there is
  an entry \<open>i\<close> whose distance is not \<open>nan\<close>, than which no entry has a smaller distance
  and before which no entry has the same distance (the first occurrence of the minimum),
  and the matcher returns the identity of entry \<open>i\<close> if that distance is strictly less
  than 0.4, and \<open>"Unknown"\<close> otherwise.
\<close>

theorem match_face_first_minimum:
  assumes "gallery \<noteq> []"
    and "\<forall>entry \<in> set gallery. length (snd entry) = length probe"
  shows "\<exists>ds. length ds = length gallery \<and>
           (\<forall>j < length gallery.
              cosine_distance ar probe (snd (gallery ! j)) = Inr (ds ! j)) \<and>
           (ds ! 0 = NaN \<longrightarrow>
              match_face ar probe (map snd gallery) (map fst gallery) = Inr ''Unknown'') \<and>
           (ds ! 0 \<noteq> NaN \<longrightarrow>
              (\<exists>i < length gallery.
                 ds ! i \<noteq> NaN \<and>
                 (\<forall>j < length gallery. \<not> fl_less (ds ! j) (ds ! i)) \<and>
                 (\<forall>j < i. ds ! j \<noteq> ds ! i) \<and>
                 match_face ar probe (map snd gallery) (map fst gallery) =
                   Inr (if fl_less (ds ! i) (Num (4 / 10))
                        then fst (gallery ! i) else ''Unknown'')))"
proof -
  from distances_of_same_length [of "map snd gallery" probe ar] assms(2)
  obtain ds where dist: "distances_of ar probe (map snd gallery) = Inr ds" by auto
  from distances_of_nth [OF dist]
  have len: "length ds = length gallery"
    and nth: "\<forall>j < length gallery. cosine_distance ar probe (snd (gallery ! j)) = Inr (ds ! j)"
    by simp_all
  from assms(1) len obtain d rest where ds: "ds = d # rest" by (cases ds) auto
  have pymin: "py_min ds = Inr (min_from d rest)" by (simp add: py_min_def ds)
  have nan: "match_face ar probe (map snd gallery) (map fst gallery) = Inr ''Unknown''"
    if "ds ! 0 = NaN"
  proof -
    from that have "d = NaN" by (simp add: ds)
    then show ?thesis
      by (simp add: match_face_def dist ds py_min_def min_from_NaN_head)
  qed
  have num: "\<exists>i < length gallery.
                 ds ! i \<noteq> NaN \<and>
                 (\<forall>j < length gallery. \<not> fl_less (ds ! j) (ds ! i)) \<and>
                 (\<forall>j < i. ds ! j \<noteq> ds ! i) \<and>
                 match_face ar probe (map snd gallery) (map fst gallery) =
                   Inr (if fl_less (ds ! i) (Num (4 / 10))
                        then fst (gallery ! i) else ''Unknown'')"
    if "ds ! 0 \<noteq> NaN"
  proof -
    from that have "d \<noteq> NaN" by (simp add: ds)
    from min_from_least [OF this, of rest]
    have m: "min_from d rest \<noteq> NaN" "min_from d rest \<in> set ds"
      "\<forall>z \<in> set ds. \<not> fl_less z (min_from d rest)" by (simp_all add: ds)
    from py_index_first [OF m(2)] obtain i where
      i: "py_index ds (min_from d rest) = Inr i" "i < length ds" "ds ! i = min_from d rest"
        "\<forall>j < i. ds ! j \<noteq> min_from d rest"
      by blast
    have "match_face ar probe (map snd gallery) (map fst gallery) =
            Inr (if fl_less (ds ! i) (Num (4 / 10)) then fst (gallery ! i) else ''Unknown'')"
      using i(2) len
      by (simp add: match_face_def dist pymin i(1) i(3) py_nth_def DISTANCE_THRESHOLD_def)
    moreover have "\<forall>j < length gallery. \<not> fl_less (ds ! j) (ds ! i)"
      using m(3) i(3) len by auto
    ultimately show ?thesis using i m(1) len by auto
  qed
  show ?thesis using len nth nan num by blast
qed

lemma cosine_distance_exact_e1_e2: "cosine_distance exact [1, 0] [0, 1] = Inr (Num 1)"
  by (simp add: cosine_distance_exact np_dot_def linalg_norm_def)

lemma cosine_distance_exact_e1_e1: "cosine_distance exact [1, 0] [1, 0] = Inr (Num 0)"
  by (simp add: cosine_distance_exact np_dot_def linalg_norm_def)

lemma cosine_distance_exact_e1_zero: "cosine_distance exact [1, 0] [0, 0] = Inr NaN"
  by (simp add: cosine_distance_exact np_dot_def linalg_norm_def)

text \<open>
  The theorem at a gallery of two entries, the second one equal to the probe: the
  entry the theorem speaks of can only be the second, and the matcher returns its name.
\<close>

theorem match_face_first_minimum_witness:
  "[(''bob'', [0, 1::real]), (''alice'', [1, 0])] \<noteq> [] \<and>
   length [0, 1::real] = length [1, 0::real] \<and>
   match_face exact [1, 0] [[0, 1], [1, 0]] [''bob'', ''alice''] = Inr ''alice''"
proof -
  let ?g = "[(''bob'', [0, 1::real]), (''alice'', [1, 0])]"
  have h1: "?g \<noteq> []" by simp
  have h2: "\<forall>entry \<in> set ?g. length (snd entry) = length [1, 0::real]" by simp
  from match_face_first_minimum [OF h1 h2, of exact]
  obtain ds where ds:
    "\<forall>j < length ?g. cosine_distance exact [1, 0] (snd (?g ! j)) = Inr (ds ! j)"
    "ds ! 0 \<noteq> NaN \<longrightarrow>
       (\<exists>i < length ?g. ds ! i \<noteq> NaN \<and> (\<forall>j < length ?g. \<not> fl_less (ds ! j) (ds ! i)) \<and>
          (\<forall>j < i. ds ! j \<noteq> ds ! i) \<and>
          match_face exact [1, 0] (map snd ?g) (map fst ?g) =
            Inr (if fl_less (ds ! i) (Num (4 / 10)) then fst (?g ! i) else ''Unknown''))"
    by blast
  have "cosine_distance exact [1, 0] (snd (?g ! 0)) = Inr (ds ! 0)"
    using ds(1) [rule_format, of 0] by simp
  then have d0: "ds ! 0 = Num 1" by (simp add: cosine_distance_exact_e1_e2)
  have "cosine_distance exact [1, 0] (snd (?g ! 1)) = Inr (ds ! 1)"
    using ds(1) [rule_format, of 1] by simp
  then have d1: "ds ! Suc 0 = Num 0" by (simp add: cosine_distance_exact_e1_e1)
  from d0 ds(2) obtain i where i: "i < length ?g" "\<forall>j < length ?g. \<not> fl_less (ds ! j) (ds ! i)"
    "match_face exact [1, 0] (map snd ?g) (map fst ?g) =
       Inr (if fl_less (ds ! i) (Num (4 / 10)) then fst (?g ! i) else ''Unknown'')"
    by auto
  have "i \<noteq> 0"
  proof
    assume "i = 0"
    with i(2) have "\<not> fl_less (ds ! 1) (ds ! 0)" by (auto dest: spec [of _ 1])
    then show False by (simp add: d0 d1)
  qed
  with i(1) have "i = Suc 0" by simp
  with i(3) have "match_face exact [1, 0] [[0, 1], [1, 0]] [''bob'', ''alice''] = Inr ''alice''"
    by (simp add: d1)
  then show ?thesis by simp
qed

text \<open>
  Claim C1 as stated fails. The first entry of this gallery has norm zero, so its
  distance to the probe is \<open>nan\<close>; the second entry is the probe itself, at distance 0,
  which is less than 0.4. \<open>min\<close> keeps the \<open>nan\<close> it starts from, and the matcher
  answers \<open>"Unknown"\<close> instead of the second identity. (Every operation involved is on
  the values 0 and 1, where float64 does not round.)
\<close>

theorem match_face_nan_counterexample:
  "cosine_distance exact [1, 0] [0, 0] = Inr NaN \<and>
   cosine_distance exact [1, 0] [1, 0] = Inr (Num 0) \<and>
   fl_less (Num 0) (Num (4 / 10)) \<and>
   match_face exact [1, 0] [[0, 0], [1, 0]] [''bob'', ''alice''] = Inr ''Unknown''"
  by (simp add: match_face_def cosine_distance_exact_e1_zero cosine_distance_exact_e1_e1
      py_min_def)

text \<open>
  A \<open>nan\<close> elsewhere in the list never compares less and is passed over.
\<close>

lemma match_face_nan_later:
  "match_face exact [1, 0] [[1, 0], [0, 0]] [''alice'', ''bob''] = Inr ''alice''"
  by (simp add: match_face_def cosine_distance_exact_e1_zero cosine_distance_exact_e1_e1
      py_min_def py_nth_def DISTANCE_THRESHOLD_def)

subsection \<open>mark_attendance\<close>

lemma str_int_digit: "0 \<le> i \<Longrightarrow> i < 10 \<Longrightarrow> str_int i = [digit_char (nat i)]"
  by (simp add: str_int_def str_nat.simps)

lemma mark_attendance_member:
  "rollNumber \<in> attendance_set s \<Longrightarrow>
   mark_attendance rollNumber date_today attendance_file classPeriod env s = (Returns (), s)"
  by (simp add: mark_attendance_def)

lemma mark_attendance_fresh:
  assumes "rollNumber \<notin> attendance_set s"
  shows "files (snd (mark_attendance rollNumber date_today attendance_file classPeriod env s)) =
           (files s)(attendance_file \<mapsto> rows_of s attendance_file
                       @ [attendance_row rollNumber date_today (now env) classPeriod])"
    and "attendance_set (snd (mark_attendance rollNumber date_today attendance_file classPeriod env s)) =
           insert rollNumber (attendance_set s)"
    and "posts (snd (mark_attendance rollNumber date_today attendance_file classPeriod env s)) =
           posts s @ [attendance_request rollNumber date_today (now env) classPeriod]"
    and "trace (snd (mark_attendance rollNumber date_today attendance_file classPeriod env s)) =
           trace s"
  using assms
  by (auto simp: mark_attendance_def Let_def requests_post_def logging_def append_row_def
      rows_of_def attendance_request_def split: remote.splits exn.splits option.splits)

lemma mark_times_member:
  "rollNumber \<in> attendance_set s \<Longrightarrow>
   mark_times rollNumber date_today attendance_file classPeriod envs s = (Returns (), s)"
  by (induction envs) (simp_all add: mark_attendance_member)

text \<open>
  Claim C2. \<open>mark_attendance\<close> is idempotent within a period. For an identity that is
  already in the marked set the call returns and leaves the state as it is: no row, no
  request. For an identity that is not yet in the set, any number of calls in a row (at
  least one; the first call reads \<open>env\<close>, the later ones \<open>envs\<close>) leave the attendance
  file with exactly one more row, that of the first call, and the list of requests with
  exactly one more request.
\<close>

theorem mark_attendance_idempotent:
  "(rollNumber \<in> attendance_set s \<longrightarrow>
      mark_attendance rollNumber date_today attendance_file classPeriod env s = (Returns (), s)) \<and>
   (rollNumber \<notin> attendance_set s \<longrightarrow>
      (let s' = snd (mark_times rollNumber date_today attendance_file classPeriod (env # envs) s)
       in files s' = (files s)(attendance_file \<mapsto> rows_of s attendance_file
                         @ [attendance_row rollNumber date_today (now env) classPeriod]) \<and>
          posts s' = posts s @ [attendance_request rollNumber date_today (now env) classPeriod] \<and>
          attendance_set s' = insert rollNumber (attendance_set s)))"
proof (intro conjI impI)
  assume "rollNumber \<in> attendance_set s"
  then show "mark_attendance rollNumber date_today attendance_file classPeriod env s = (Returns (), s)"
    by (rule mark_attendance_member)
next
  assume fresh: "rollNumber \<notin> attendance_set s"
  define r where "r = mark_attendance rollNumber date_today attendance_file classPeriod env s"
  define s1 where "s1 = snd r"
  have eff: "files s1 = (files s)(attendance_file \<mapsto> rows_of s attendance_file
                         @ [attendance_row rollNumber date_today (now env) classPeriod])"
    "attendance_set s1 = insert rollNumber (attendance_set s)"
    "posts s1 = posts s @ [attendance_request rollNumber date_today (now env) classPeriod]"
    unfolding s1_def r_def using mark_attendance_fresh [OF fresh] by auto
  have "snd (mark_times rollNumber date_today attendance_file classPeriod (env # envs) s) = s1"
  proof (cases "fst r")
    case (Returns u)
    then have "r = (Returns u, s1)" by (simp add: s1_def prod_eq_iff)
    moreover have "rollNumber \<in> attendance_set s1" using eff(2) by simp
    ultimately show ?thesis
      by (simp add: r_def [symmetric] mark_times_member)
  next
    case (Raises e)
    then have "r = (Raises e, s1)" by (simp add: s1_def prod_eq_iff)
    then show ?thesis by (simp add: r_def [symmetric])
  next
    case Blocks
    then have "r = (Blocks, s1)" by (simp add: s1_def prod_eq_iff)
    then show ?thesis by (simp add: r_def [symmetric])
  qed
  with eff show "let s' = snd (mark_times rollNumber date_today attendance_file classPeriod (env # envs) s)
       in files s' = (files s)(attendance_file \<mapsto> rows_of s attendance_file
                         @ [attendance_row rollNumber date_today (now env) classPeriod]) \<and>
          posts s' = posts s @ [attendance_request rollNumber date_today (now env) classPeriod] \<and>
          attendance_set s' = insert rollNumber (attendance_set s)"
    by (simp add: Let_def)
qed

theorem mark_attendance_idempotent_witness:
  "''alice'' \<notin> attendance_set start_state \<and>
   (let s' = snd (mark_times ''alice'' ''2024-01-01'' ''a.csv'' 1
                    [\<lparr>now = ''09:00:00'', remote = Responds 200 ''ok''\<rparr>,
                     \<lparr>now = ''09:00:01'', remote = Responds 200 ''ok''\<rparr>,
                     \<lparr>now = ''09:00:02'', remote = Responds 200 ''ok''\<rparr>] start_state)
    in rows_of s' ''a.csv'' = [[''alice'', ''2024-01-01'', ''09:00:00'', ''Present'', ''Class 1'']] \<and>
       length (posts s') = 1)"
  using mark_attendance_idempotent [of "''alice''" start_state "''2024-01-01''" "''a.csv''" 1
      "\<lparr>now = ''09:00:00'', remote = Responds 200 ''ok''\<rparr>"
      "[\<lparr>now = ''09:00:01'', remote = Responds 200 ''ok''\<rparr>,
        \<lparr>now = ''09:00:02'', remote = Responds 200 ''ok''\<rparr>]"]
  by (simp add: start_state_def Let_def rows_of_def attendance_row_def str_int_digit digit_char_def)

lemma begin_cycle_fields:
  "attendance_set (begin_cycle p c s) = {}"
  "files (begin_cycle p c s) = files s"
  "posts (begin_cycle p c s) = posts s"
  "trace (begin_cycle p c s) = trace s"
  by (simp_all add: begin_cycle_def logging_def)

lemma camera_opened_fields:
  "attendance_set (camera_opened p s) = attendance_set s"
  "files (camera_opened p s) = files s"
  "posts (camera_opened p s) = posts s"
  "trace (camera_opened p s) = trace s @ [CameraOpened p]"
  by (simp_all add: camera_opened_def logging_def record_event_def)

lemma rows_of_cong: "files s = files t \<Longrightarrow> rows_of s path = rows_of t path"
  by (simp add: rows_of_def)

lemma rows_of_mark_fresh:
  "rollNumber \<notin> attendance_set s \<Longrightarrow>
   rows_of (snd (mark_attendance rollNumber date_today attendance_file classPeriod env s))
     attendance_file =
   rows_of s attendance_file @ [attendance_row rollNumber date_today (now env) classPeriod]"
  by (simp add: rows_of_def [of "snd _"] mark_attendance_fresh(1))

text \<open>
  The state in which the active phase of a cycle starts has an empty
  \<open>attendance_set\<close>, and marking an identity in two successive cycles appends two rows.
\<close>

lemma marked_again_in_next_period:
  "attendance_set (camera_opened p1 (begin_cycle p1 c1 s)) = {} \<and>
   (let s1 = snd (mark_attendance rollNumber date_today attendance_file p1 env1
                    (camera_opened p1 (begin_cycle p1 c1 s)));
        s2 = snd (mark_attendance rollNumber date_today attendance_file p2 env2
                    (camera_opened p2 (begin_cycle p2 c2 s1)))
    in rollNumber \<in> attendance_set s1 \<and>
       rows_of s2 attendance_file =
         rows_of s attendance_file
           @ [attendance_row rollNumber date_today (now env1) p1,
              attendance_row rollNumber date_today (now env2) p2])"
proof -
  let ?a = "camera_opened p1 (begin_cycle p1 c1 s)"
  let ?s1 = "snd (mark_attendance rollNumber date_today attendance_file p1 env1 ?a)"
  let ?b = "camera_opened p2 (begin_cycle p2 c2 ?s1)"
  have a: "attendance_set ?a = {}" by (simp add: camera_opened_fields begin_cycle_fields)
  have b: "attendance_set ?b = {}" by (simp add: camera_opened_fields begin_cycle_fields)
  have "rows_of ?a attendance_file = rows_of s attendance_file"
    by (rule rows_of_cong) (simp add: camera_opened_fields begin_cycle_fields)
  then have r1: "rows_of ?s1 attendance_file =
      rows_of s attendance_file @ [attendance_row rollNumber date_today (now env1) p1]"
    using rows_of_mark_fresh [of rollNumber ?a] a by simp
  have "rows_of ?b attendance_file = rows_of ?s1 attendance_file"
    by (rule rows_of_cong) (simp add: camera_opened_fields begin_cycle_fields)
  then have r2: "rows_of (snd (mark_attendance rollNumber date_today attendance_file p2 env2 ?b))
                   attendance_file =
      rows_of ?s1 attendance_file @ [attendance_row rollNumber date_today (now env2) p2]"
    using rows_of_mark_fresh [of rollNumber ?b] b by simp
  have m: "rollNumber \<in> attendance_set ?s1"
    using mark_attendance_fresh(2) [of rollNumber ?a] a by simp
  show ?thesis using a m r1 r2 by (simp add: Let_def)
qed

lemma mark_attendance_fst:
  "fst (mark_attendance rollNumber date_today attendance_file classPeriod env s) =
     (if rollNumber \<in> attendance_set s then Returns ()
      else (case remote env of
              Silent \<Rightarrow> Blocks
            | Fails KeyboardInterrupt \<Rightarrow> Raises KeyboardInterrupt
            | Fails (Exception msg) \<Rightarrow> Returns ()
            | Responds status_code text \<Rightarrow> Returns ()))"
  by (simp add: mark_attendance_def Let_def requests_post_def attendance_request_def
      split: remote.splits exn.splits)

lemma same_records_mark:
  assumes "same_records s t"
  shows "fst (mark_attendance rollNumber date_today attendance_file classPeriod env s) =
         fst (mark_attendance rollNumber date_today attendance_file classPeriod env t) \<and>
         same_records (snd (mark_attendance rollNumber date_today attendance_file classPeriod env s))
           (snd (mark_attendance rollNumber date_today attendance_file classPeriod env t))"
proof (cases "rollNumber \<in> attendance_set s")
  case True
  then have "rollNumber \<in> attendance_set t" using assms by (simp add: same_records_def)
  with True assms show ?thesis by (simp add: mark_attendance_member)
next
  case False
  then have "rollNumber \<notin> attendance_set t" using assms by (simp add: same_records_def)
  with False assms show ?thesis
    by (simp add: mark_attendance_fst same_records_def mark_attendance_fresh rows_of_def)
qed

text \<open>
  Claim C4. Let the remote call of a first-time mark fail: the remote answers with a
  status other than 200, or the call raises an exception (one that \<open>except Exception\<close>
  catches; a \<open>KeyboardInterrupt\<close> is the user's cancellation, not a failure of the
  remote). Then \<open>mark_attendance\<close> returns normally, the row is in the file, the identity
  is in the marked set, exactly one request was attempted, a later call for the same
  identity does nothing (so nothing is retried), and a later mark of any identity goes as
  it would have gone had the remote answered 200: the same completion, and the same set,
  files, requests and camera calls afterwards (only the logs differ).
\<close>

theorem forwarding_failure_keeps_mark:
  assumes "rollNumber \<notin> attendance_set s"
    and "(\<exists>status_code text. remote env = Responds status_code text \<and> status_code \<noteq> 200) \<or>
         (\<exists>msg. remote env = Fails (Exception msg))"
  shows "\<exists>s'. mark_attendance rollNumber date_today attendance_file classPeriod env s
                 = (Returns (), s') \<and>
              files s' = (files s)(attendance_file \<mapsto> rows_of s attendance_file
                           @ [attendance_row rollNumber date_today (now env) classPeriod]) \<and>
              attendance_set s' = insert rollNumber (attendance_set s) \<and>
              posts s' = posts s @ [attendance_request rollNumber date_today (now env) classPeriod] \<and>
              (\<forall>env'. mark_attendance rollNumber date_today attendance_file classPeriod env' s'
                        = (Returns (), s')) \<and>
              (\<forall>other env' text'.
                 fst (mark_attendance other date_today attendance_file classPeriod env' s') =
                 fst (mark_attendance other date_today attendance_file classPeriod env'
                        (snd (mark_attendance rollNumber date_today attendance_file classPeriod
                                (env\<lparr>remote := Responds 200 text'\<rparr>) s))) \<and>
                 same_records
                   (snd (mark_attendance other date_today attendance_file classPeriod env' s'))
                   (snd (mark_attendance other date_today attendance_file classPeriod env'
                           (snd (mark_attendance rollNumber date_today attendance_file classPeriod
                                   (env\<lparr>remote := Responds 200 text'\<rparr>) s)))))"
proof -
  let ?r = "mark_attendance rollNumber date_today attendance_file classPeriod env s"
  have ret: "fst ?r = Returns ()"
    using assms by (auto simp: mark_attendance_fst)
  then have eq: "?r = (Returns (), snd ?r)" by (simp add: prod_eq_iff)
  have same: "same_records (snd ?r)
          (snd (mark_attendance rollNumber date_today attendance_file classPeriod
                  (env\<lparr>remote := Responds 200 text'\<rparr>) s))" for text'
    using assms(1) by (simp add: same_records_def mark_attendance_fresh)
  have again: "mark_attendance rollNumber date_today attendance_file classPeriod env' (snd ?r)
                 = (Returns (), snd ?r)" for env'
    by (rule mark_attendance_member) (simp add: mark_attendance_fresh(2) [OF assms(1)])
  show ?thesis
    apply (rule exI [of _ "snd ?r"])
    using eq mark_attendance_fresh [OF assms(1), of date_today attendance_file classPeriod env]
      again same_records_mark [OF same]
    by simp
qed

text \<open>
  The theorem at a first mark of \<open>alice\<close> answered with status 500.
\<close>

theorem forwarding_failure_keeps_mark_witness:
  "''alice'' \<notin> attendance_set start_state \<and>
   ((\<exists>status_code text. remote \<lparr>now = ''09:00:00'', remote = Responds 500 ''down''\<rparr>
        = Responds status_code text \<and> status_code \<noteq> 200) \<or>
    (\<exists>msg. remote \<lparr>now = ''09:00:00'', remote = Responds 500 ''down''\<rparr>
        = Fails (Exception msg))) \<and>
   fst (mark_attendance ''alice'' ''2024-01-01'' ''a.csv'' 1
          \<lparr>now = ''09:00:00'', remote = Responds 500 ''down''\<rparr> start_state) = Returns () \<and>
   rows_of (snd (mark_attendance ''alice'' ''2024-01-01'' ''a.csv'' 1
          \<lparr>now = ''09:00:00'', remote = Responds 500 ''down''\<rparr> start_state)) ''a.csv''
     = [[''alice'', ''2024-01-01'', ''09:00:00'', ''Present'', ''Class 1'']] \<and>
   length (posts (snd (mark_attendance ''alice'' ''2024-01-01'' ''a.csv'' 1
          \<lparr>now = ''09:00:00'', remote = Responds 500 ''down''\<rparr> start_state))) = 1"
proof -
  let ?env = "\<lparr>now = ''09:00:00'', remote = Responds 500 ''down''\<rparr>"
  have h1: "''alice'' \<notin> attendance_set start_state" by (simp add: start_state_def)
  have h2: "(\<exists>status_code text. remote ?env = Responds status_code text \<and> status_code \<noteq> 200) \<or>
            (\<exists>msg. remote ?env = Fails (Exception msg))"
    by simp
  from forwarding_failure_keeps_mark [OF h1 h2, of "''2024-01-01''" "''a.csv''" 1]
  obtain s' where s':
    "mark_attendance ''alice'' ''2024-01-01'' ''a.csv'' 1 ?env start_state = (Returns (), s')"
    "files s' = (files start_state)(''a.csv'' \<mapsto> rows_of start_state ''a.csv''
                  @ [attendance_row ''alice'' ''2024-01-01'' (now ?env) 1])"
    "posts s' = posts start_state
                  @ [attendance_request ''alice'' ''2024-01-01'' (now ?env) 1]"
    by blast
  have "rows_of s' ''a.csv'' = [[''alice'', ''2024-01-01'', ''09:00:00'', ''Present'', ''Class 1'']]"
    using s'(2)
    by (simp add: rows_of_def start_state_def attendance_row_def str_int_digit digit_char_def)
  moreover have "length (posts s') = 1" using s'(3) by (simp add: start_state_def)
  ultimately show ?thesis using h1 h2 s'(1) by simp
qed

text \<open>
  Claim C9 as stated fails: the request is built without a timeout, and with a remote
  that never answers \<open>mark_attendance\<close> does not return; the frame loop that called it
  never reaches its second frame.
\<close>

theorem remote_call_blocks_counterexample:
  "timeout (attendance_request ''alice'' ''2024-01-01'' ''09:00:00'' 1) = None \<and>
   fst (mark_attendance ''alice'' ''2024-01-01'' ''a.csv'' 1
          \<lparr>now = ''09:00:00'', remote = Silent\<rparr> start_state) = Blocks \<and>
   fst (active_loop exact
          [Frame \<lparr>detect = Inr [(\<lparr>embedding = [1, 0], facial_area = (0, 0, 10, 10)\<rparr>,
                                  \<lparr>now = ''09:00:00'', remote = Silent\<rparr>)],
                  ui = Inr (- 1), elapsed = 1\<rparr>,
           Frame \<lparr>detect = Inr [], ui = Inr (- 1), elapsed = 61\<rparr>]
          [[1, 0]] [''alice''] ''a.csv'' ''2024-01-01'' 1 start_state) = Hang"
proof -
  let ?env = "\<lparr>now = ''09:00:00'', remote = Silent\<rparr>"
  let ?m = "mark_attendance ''alice'' ''2024-01-01'' ''a.csv'' 1 ?env start_state"
  have t: "timeout (attendance_request ''alice'' ''2024-01-01'' ''09:00:00'' 1) = None"
    by (simp add: attendance_request_def)
  have b: "fst ?m = Blocks"
    by (simp add: mark_attendance_fst start_state_def)
  then obtain s1 where m: "?m = (Blocks, s1)" by (cases ?m) auto
  have match: "match_face exact [1, 0] [[1, 0]] [''alice''] = Inr ''alice''"
    by (simp add: match_face_def cosine_distance_exact linalg_norm_def np_dot_def py_min_def
        py_nth_def DISTANCE_THRESHOLD_def)
  have "faces_loop exact [(\<lparr>embedding = [1, 0], facial_area = (0, 0, 10, 10)\<rparr>, ?env)]
          [[1, 0]] [''alice''] ''a.csv'' ''2024-01-01'' 1 start_state = (Blocks, s1)"
    by (simp add: match m)
  then have "process_frame exact
          (Inr [(\<lparr>embedding = [1, 0], facial_area = (0, 0, 10, 10)\<rparr>, ?env)])
          [[1, 0]] [''alice''] ''a.csv'' ''2024-01-01'' 1 start_state = (Blocks, s1)"
    by (simp add: process_frame_def)
  then have "fst (active_loop exact
          [Frame \<lparr>detect = Inr [(\<lparr>embedding = [1, 0], facial_area = (0, 0, 10, 10)\<rparr>, ?env)],
                  ui = Inr (- 1), elapsed = 1\<rparr>,
           Frame \<lparr>detect = Inr [], ui = Inr (- 1), elapsed = 61\<rparr>]
          [[1, 0]] [''alice''] ''a.csv'' ''2024-01-01'' 1 start_state) = Hang"
    by simp
  with t b show ?thesis by simp
qed

subsection \<open>The capture cycle: camera calls\<close>

lemma logging_fields:
  "attendance_set (logging lv msg s) = attendance_set s"
  "files (logging lv msg s) = files s"
  "posts (logging lv msg s) = posts s"
  "trace (logging lv msg s) = trace s"
  by (simp_all add: logging_def)

lemma mark_attendance_trace:
  "trace (snd (mark_attendance rollNumber date_today attendance_file classPeriod env s)) = trace s"
  by (cases "rollNumber \<in> attendance_set s")
     (simp_all add: mark_attendance_member mark_attendance_fresh)

lemma faces_loop_trace:
  "trace (snd (faces_loop ar results known_faces student_names attendance_file date_today
                 classPeriod s)) = trace s"
proof (induction results arbitrary: s)
  case Nil
  then show ?case by simp
next
  case (Cons a results)
  obtain result env where a: "a = (result, env)" by (cases a)
  show ?case
  proof (cases "match_face ar (embedding result) known_faces student_names")
    case (Inl e)
    then show ?thesis by (simp add: a)
  next
    case (Inr name)
    show ?thesis
    proof (cases "name = ''Unknown''")
      case True
      with Inr Cons.IH show ?thesis by (simp add: a)
    next
      case False
      obtain r s1 where m: "mark_attendance name date_today attendance_file classPeriod env s = (r, s1)"
        by (cases "mark_attendance name date_today attendance_file classPeriod env s")
      have "trace s1 = trace s"
        using mark_attendance_trace [of name date_today attendance_file classPeriod env s] m by simp
      with Inr False m Cons.IH [of s1] show ?thesis
        by (cases r) (simp_all add: a)
    qed
  qed
qed

lemma process_frame_trace:
  "trace (snd (process_frame ar detected known_faces student_names attendance_file date_today
                 classPeriod s)) = trace s"
proof (cases detected)
  case (Inl e)
  then show ?thesis by (cases e) (simp_all add: process_frame_def logging_fields)
next
  case (Inr results)
  obtain r s1 where f: "faces_loop ar results known_faces student_names attendance_file date_today
                 classPeriod s = (r, s1)"
    by (cases "faces_loop ar results known_faces student_names attendance_file date_today
                 classPeriod s")
  have "trace s1 = trace s"
    using faces_loop_trace [of ar results known_faces student_names attendance_file date_today
        classPeriod s] f by simp
  with Inr f show ?thesis
    by (auto simp: process_frame_def logging_fields split: res.splits exn.splits)
qed

lemma active_loop_trace:
  "trace (snd (active_loop ar its known_faces student_names attendance_file date_today
                 class_period s)) = trace s"
proof (induction its arbitrary: s)
  case Nil
  then show ?case by simp
next
  case (Cons it its)
  show ?case
  proof (cases it)
    case NoFrame
    then show ?thesis by (simp add: logging_fields)
  next
    case (ReadRaises e)
    then show ?thesis by simp
  next
    case (Frame f)
    obtain r s1 where p: "process_frame ar (detect f) known_faces student_names attendance_file
                            date_today class_period s = (r, s1)"
      by (cases "process_frame ar (detect f) known_faces student_names attendance_file
                            date_today class_period s")
    have "trace s1 = trace s"
      using process_frame_trace [of ar "detect f" known_faces student_names attendance_file
          date_today class_period s] p by simp
    with Frame p Cons.IH [of s1] show ?thesis
      by (cases r) (auto split: sum.splits)
  qed
qed

lemma active_phase_trace:
  "trace (snd (active_phase ar its known_faces student_names attendance_file date_today
                 class_period s)) =
     (if fst (active_phase ar its known_faces student_names attendance_file date_today
                class_period s) \<in> {Hang, NoInput}
      then trace s else trace s @ [CameraReleased])"
proof -
  obtain x s1 where a: "active_loop ar its known_faces student_names attendance_file date_today
                 class_period s = (x, s1)"
    by (cases "active_loop ar its known_faces student_names attendance_file date_today
                 class_period s")
  have "trace s1 = trace s"
    using active_loop_trace [of ar its known_faces student_names attendance_file date_today
        class_period s] a by simp
  then show ?thesis
    by (cases x) (auto simp: active_phase_def a record_event_def logging_fields split: exn.splits)
qed

lemma released_after_open_append:
  "released_after_open xs \<Longrightarrow> released_after_open ys \<Longrightarrow> released_after_open (xs @ ys)"
  by (induction xs rule: released_after_open.induct) simp_all

lemma camera_unavailable_trace:
  "trace (camera_unavailable p s) = trace s @ [CameraFailed p, Slept 60]"
  by (simp add: camera_unavailable_def record_event_def logging_fields)

lemma end_cycle_trace: "trace (end_cycle p c s) = trace s @ [Slept 10]"
  by (simp add: end_cycle_def Let_def record_event_def logging_fields)

lemma cycle_start_trace:
  "trace (camera_opened p (begin_cycle p c s)) = trace s @ [CameraOpened p]"
  by (simp add: camera_opened_fields begin_cycle_fields)

lemma main_loop_released:
  "released_after_open (trace s) \<Longrightarrow>
   fst (main_loop ar cs known_faces student_names attendance_file date_today class_period
          cycle_count s) \<notin> {Hung, ScriptEnded} \<Longrightarrow>
   released_after_open
     (trace (snd (main_loop ar cs known_faces student_names attendance_file date_today
                    class_period cycle_count s)))"
proof (induction cs arbitrary: class_period cycle_count s)
  case Nil
  then show ?case by simp
next
  case (Cons c cs)
  show ?case
  proof (cases "class_period \<le> 6")
    case False
    with Cons.prems show ?thesis by (cases c) simp_all
  next
    case True
    show ?thesis
    proof (cases c)
      case CameraUnavailable
      let ?s = "camera_unavailable class_period (begin_cycle class_period (cycle_count + 1) s)"
      have "released_after_open (trace ?s)"
        using Cons.prems(1)
        by (simp add: camera_unavailable_trace begin_cycle_fields released_after_open_append)
      with Cons.IH [of ?s class_period "cycle_count + 1"] Cons.prems(2) True CameraUnavailable
      show ?thesis by simp
    next
      case (CameraAvailable its)
      let ?s0 = "camera_opened class_period (begin_cycle class_period (cycle_count + 1) s)"
      let ?r = "active_phase ar its known_faces student_names attendance_file date_today
                  class_period ?s0"
      show ?thesis
      proof (cases "fst ?r = Break")
        case brk: True
        have "trace (snd ?r) = trace s @ [CameraOpened class_period, CameraReleased]"
          using brk by (simp add: active_phase_trace cycle_start_trace)
        then have "released_after_open
                     (trace (end_cycle class_period (cycle_count + 1) (snd ?r)))"
          using Cons.prems(1) by (simp add: end_cycle_trace released_after_open_append)
        with Cons.IH [of "end_cycle class_period (cycle_count + 1) (snd ?r)"
            "class_period + 1" "cycle_count + 1"] Cons.prems(2) True CameraAvailable brk
        show ?thesis by (simp add: Let_def)
      next
        case False
        then have res: "main_loop ar (c # cs) known_faces student_names attendance_file date_today
                     class_period cycle_count s = (leave_main (fst ?r), snd ?r)"
          using True CameraAvailable by (simp add: Let_def)
        with Cons.prems(2) have "fst ?r \<notin> {Hang, NoInput}"
          by (cases "fst ?r") auto
        then have "trace (snd ?r) = trace s @ [CameraOpened class_period, CameraReleased]"
          by (simp add: active_phase_trace cycle_start_trace)
        then show ?thesis
          using Cons.prems(1) by (simp add: res released_after_open_append)
      qed
    qed
  qed
qed

subsection \<open>The loader\<close>

lemma load_loop_fields:
  "attendance_set (snd (load_loop listing kf sn s)) = attendance_set s \<and>
   files (snd (load_loop listing kf sn s)) = files s \<and>
   posts (snd (load_loop listing kf sn s)) = posts s \<and>
   trace (snd (load_loop listing kf sn s)) = trace s"
proof (induction listing kf sn s rule: load_loop.induct)
  case (1 known_faces student_names s)
  then show ?case by simp
next
  case (2 filename represented rest known_faces student_names s)
  show ?case
  proof (cases "is_image_name filename")
    case False
    with 2 show ?thesis by simp
  next
    case True
    show ?thesis
    proof (cases represented)
      case (Inl e)
      with True 2 show ?thesis by (cases e) (simp_all add: logging_fields)
    next
      case (Inr rs)
      with True 2 show ?thesis by (cases rs) (simp_all add: logging_fields)
    qed
  qed
qed

lemma load_known_faces_fields:
  "attendance_set (snd (load_known_faces directory path s)) = attendance_set s \<and>
   files (snd (load_known_faces directory path s)) = files s \<and>
   posts (snd (load_known_faces directory path s)) = posts s \<and>
   trace (snd (load_known_faces directory path s)) = trace s"
proof (cases directory)
  case None
  then show ?thesis by (simp add: load_known_faces_def logging_fields)
next
  case (Some listing)
  obtain r s1 where l: "load_loop listing [] [] s = (r, s1)"
    by (cases "load_loop listing [] [] s")
  have f: "attendance_set s1 = attendance_set s \<and> files s1 = files s \<and>
           posts s1 = posts s \<and> trace s1 = trace s"
    using load_loop_fields [of listing "[]" "[]" s] by (simp add: l)
  show ?thesis
  proof (cases r)
    case (Returns x)
    obtain kf sn where "x = (kf, sn)" by (cases x)
    with Returns have "snd (load_known_faces directory path s) =
        logging INFO (''Loaded '' @ str_int (int (length sn)) @ '' students from dataset'') s1"
      by (simp add: load_known_faces_def Some l)
    with f show ?thesis by (simp only: logging_fields)
  next
    case (Raises e)
    then have "snd (load_known_faces directory path s) = s1"
      by (simp add: load_known_faces_def Some l)
    with f show ?thesis by simp
  next
    case Blocks
    then have "snd (load_known_faces directory path s) = s1"
      by (simp add: load_known_faces_def Some l)
    with f show ?thesis by simp
  qed
qed






text \<open>
  Claim C8. When the dataset path does not exist, the loader returns the empty gallery
  (it logs an error and raises nothing). And whenever the loader returns an empty
  gallery, \<open>main\<close> ends with the outcome \<open>NoGallery\<close> without any call to the camera
  or to \<open>time.sleep\<close> (no cycle is started), without creating or touching any file and
  without any request.
\<close>

theorem empty_gallery_aborts:
  "load_known_faces None dataset_path s =
     (Returns ([], []), logging ERROR (''Dataset path '' @ dataset_path @ '' does not exist'') s) \<and>
   (fst (load_known_faces (dataset env) DATASET_PATH s) = Returns ([], student_names) \<longrightarrow>
      fst (main ar env s) = NoGallery \<and>
      trace (snd (main ar env s)) = trace s \<and>
      files (snd (main ar env s)) = files s \<and>
      posts (snd (main ar env s)) = posts s)"
proof (intro conjI impI)
  show "load_known_faces None dataset_path s =
     (Returns ([], []), logging ERROR (''Dataset path '' @ dataset_path @ '' does not exist'') s)"
    by (simp add: load_known_faces_def)
next
  assume e: "fst (load_known_faces (dataset env) DATASET_PATH s) = Returns ([], student_names)"
  obtain s1 where l: "load_known_faces (dataset env) DATASET_PATH s = (Returns ([], student_names), s1)"
    using e by (cases "load_known_faces (dataset env) DATASET_PATH s") auto
  have m: "main ar env s = (NoGallery, logging ERROR ''No known faces loaded. Exiting.'' s1)"
    by (simp add: main_def l)
  have f: "trace s1 = trace s" "files s1 = files s" "posts s1 = posts s"
    using load_known_faces_fields [of "dataset env" DATASET_PATH s] l by simp_all
  show "fst (main ar env s) = NoGallery" by (simp add: m)
  show "trace (snd (main ar env s)) = trace s" by (simp add: m logging_fields f)
  show "files (snd (main ar env s)) = files s" by (simp add: m logging_fields f)
  show "posts (snd (main ar env s)) = posts s" by (simp add: m logging_fields f)
qed

subsection \<open>The cycle controller\<close>

lemma initialize_attendance_trace:
  "trace (snd (initialize_attendance date_today s)) = trace s"
  by (simp add: initialize_attendance_def Let_def logging_fields)

lemma main_try_fst:
  "fst (main_try ar cs known_faces student_names attendance_file date_today s) =
   fst (main_loop ar cs known_faces student_names attendance_file date_today 1 0 s)"
  by (cases "main_loop ar cs known_faces student_names attendance_file date_today 1 0 s")
     (simp add: main_try_def split: outcome.splits)

lemma main_try_trace:
  "trace (snd (main_try ar cs known_faces student_names attendance_file date_today s)) =
   trace (snd (main_loop ar cs known_faces student_names attendance_file date_today 1 0 s))"
  by (cases "main_loop ar cs known_faces student_names attendance_file date_today 1 0 s")
     (simp add: main_try_def logging_fields split: outcome.splits)

lemma main_with_gallery:
  assumes "load_known_faces (dataset env) DATASET_PATH s = (Returns (known_faces, student_names), s1)"
    and "known_faces \<noteq> []"
  shows "\<exists>attendance_file s2.
           main ar env s = main_try ar (cycles env) known_faces student_names attendance_file
                          (today env) s2 \<and>
           trace s2 = trace s"
proof -
  obtain attendance_file s2 where i: "initialize_attendance (today env) s1 = (attendance_file, s2)"
    by (cases "initialize_attendance (today env) s1")
  have "trace s2 = trace s1"
    using initialize_attendance_trace [of "today env" s1] by (simp add: i)
  moreover have "trace s1 = trace s"
    using load_known_faces_fields [of "dataset env" DATASET_PATH s] by (simp add: assms(1))
  ultimately have "trace s2 = trace s" by simp
  with assms show ?thesis
    apply (simp add: main_def i Let_def)
    apply (intro exI conjI)
     apply (rule refl)
    apply (simp add: logging_fields)
    done
qed

lemma main_released:
  assumes "released_after_open (trace s)" and "fst (main ar env s) \<notin> {Hung, ScriptEnded}"
  shows "released_after_open (trace (snd (main ar env s)))"
proof -
  obtain r s1 where l: "load_known_faces (dataset env) DATASET_PATH s = (r, s1)"
    by (cases "load_known_faces (dataset env) DATASET_PATH s")
  have t1: "trace s1 = trace s"
    using load_known_faces_fields [of "dataset env" DATASET_PATH s] by (simp add: l)
  show ?thesis
  proof (cases r)
    case (Raises e)
    with assms(1) t1 show ?thesis by (simp add: main_def l)
  next
    case Blocks
    with assms(1) t1 show ?thesis by (simp add: main_def l)
  next
    case (Returns g)
    obtain known_faces student_names where g: "g = (known_faces, student_names)" by (cases g)
    show ?thesis
    proof (cases "known_faces = []")
      case True
      with assms(1) t1 Returns g show ?thesis by (simp add: main_def l logging_fields)
    next
      case False
      from main_with_gallery [OF l [unfolded Returns g] False, of ar]
      obtain attendance_file s2 where
        m: "main ar env s = main_try ar (cycles env) known_faces student_names attendance_file
                          (today env) s2" and t2: "trace s2 = trace s"
        by blast
      have "fst (main_loop ar (cycles env) known_faces student_names attendance_file (today env)
                   1 0 s2) \<notin> {Hung, ScriptEnded}"
        using assms(2) by (simp add: m main_try_fst)
      with main_loop_released [of s2] assms(1) t2 show ?thesis
        by (simp add: m main_try_trace)
    qed
  qed
qed

text \<open>
  Claim C7. However the active phase of a period is left (by \<open>break\<close> on the duration
  or on a failed read, by \<open>return\<close> on the quit key or on a keyboard interrupt, or by
  an exception), the camera opened for it is released: the camera calls of the phase are
  the opening followed by the release. And in every run of \<open>main\<close> that ends, each
  opening of the camera is followed by its release before the next sleep, the next
  camera call or the end of the run. (The two outcomes left out are no exits: a call
  that never returns, and input that ends before the loop is left.)
\<close>

theorem camera_released_on_every_exit:
  "(fst (active_phase ar its known_faces student_names attendance_file date_today class_period
           (camera_opened class_period s)) \<notin> {Hang, NoInput} \<longrightarrow>
      trace (snd (active_phase ar its known_faces student_names attendance_file date_today
                    class_period (camera_opened class_period s))) =
        trace s @ [CameraOpened class_period, CameraReleased]) \<and>
   (released_after_open (trace s) \<and> fst (main ar env s) \<notin> {Hung, ScriptEnded} \<longrightarrow>
      released_after_open (trace (snd (main ar env s))))"
  by (simp add: active_phase_trace camera_opened_fields main_released)

lemma opened_periods_append:
  "opened_periods (xs @ ys) = opened_periods xs @ opened_periods ys"
  by (induction xs rule: opened_periods.induct) simp_all

lemma py_index_error: "py_index xs v = Inl e \<Longrightarrow> \<exists>msg. e = Exception msg"
  by (induction xs arbitrary: e) (auto split: if_splits sum.splits)

lemma distances_of_error:
  "distances_of ar probe known_faces = Inl e \<Longrightarrow> \<exists>msg. e = Exception msg"
  by (induction known_faces arbitrary: e)
     (auto simp: cosine_distance_def split: if_splits sum.splits)

lemma match_face_error:
  "match_face ar probe known_faces student_names = Inl e \<Longrightarrow> \<exists>msg. e = Exception msg"
  by (auto simp: match_face_def py_min_def py_nth_def
      dest: distances_of_error py_index_error split: sum.splits list.splits if_splits)

lemma faces_loop_quiet:
  "list_all (\<lambda>(result, env). quiet_remote (remote env)) results \<Longrightarrow>
   fst (faces_loop ar results known_faces student_names attendance_file date_today classPeriod s)
     = Returns () \<or>
   (\<exists>msg. fst (faces_loop ar results known_faces student_names attendance_file date_today
                  classPeriod s) = Raises (Exception msg))"
proof (induction results arbitrary: s)
  case Nil
  then show ?case by simp
next
  case (Cons a results)
  obtain result env where a: "a = (result, env)" by (cases a)
  from Cons.prems a have q: "quiet_remote (remote env)"
    and rest: "list_all (\<lambda>(result, env). quiet_remote (remote env)) results" by simp_all
  show ?case
  proof (cases "match_face ar (embedding result) known_faces student_names")
    case (Inl e)
    have "\<exists>msg. e = Exception msg"
      using Inl by (rule match_face_error)
    with Inl show ?thesis by (auto simp: a)
  next
    case (Inr name)
    show ?thesis
    proof (cases "name = ''Unknown''")
      case True
      with Inr Cons.IH [OF rest] show ?thesis by (simp add: a)
    next
      case False
      obtain r s1 where m: "mark_attendance name date_today attendance_file classPeriod env s = (r, s1)"
        by (cases "mark_attendance name date_today attendance_file classPeriod env s")
      have "fst (mark_attendance name date_today attendance_file classPeriod env s) = Returns ()"
        using q by (cases "remote env" rule: quiet_remote.cases) (simp_all add: mark_attendance_fst)
      then have "r = Returns ()" by (simp add: m)
      with Inr False m Cons.IH [OF rest, of s1] show ?thesis by (simp add: a)
    qed
  qed
qed

lemma process_frame_quiet:
  assumes "quiet_detect detected"
  shows "fst (process_frame ar detected known_faces student_names attendance_file date_today
                classPeriod s) = Returns ()"
proof (cases detected)
  case (Inl e)
  with assms show ?thesis by (cases e) (simp_all add: process_frame_def)
next
  case (Inr results)
  obtain r s1 where f: "faces_loop ar results known_faces student_names attendance_file date_today
                          classPeriod s = (r, s1)"
    by (cases "faces_loop ar results known_faces student_names attendance_file date_today
                          classPeriod s")
  from assms Inr have "list_all (\<lambda>(result, env). quiet_remote (remote env)) results" by simp
  from faces_loop_quiet [OF this, of ar known_faces student_names attendance_file date_today
      classPeriod s]
  have "r = Returns () \<or> (\<exists>msg. r = Raises (Exception msg))" by (simp add: f)
  with Inr f show ?thesis by (auto simp: process_frame_def)
qed

lemma active_loop_quiet:
  "quiet_frames its \<Longrightarrow>
   fst (active_loop ar its known_faces student_names attendance_file date_today class_period s)
     = Break"
proof (induction its arbitrary: s)
  case Nil
  then show ?case by simp
next
  case (Cons it its)
  then obtain f where it: "it = Frame f" by (cases it) simp_all
  obtain r s1 where p: "process_frame ar (detect f) known_faces student_names attendance_file
                          date_today class_period s = (r, s1)"
    by (cases "process_frame ar (detect f) known_faces student_names attendance_file
                          date_today class_period s")
  from Cons.prems it have qd: "quiet_detect (detect f)" by simp
  have r: "r = Returns ()"
    using process_frame_quiet [OF qd, of ar known_faces student_names attendance_file date_today
        class_period s] by (simp add: p)
  from Cons.prems it obtain key where key: "ui f = Inr key" "key AND 255 \<noteq> 113"
    "elapsed f > 60 \<or> quiet_frames its"
    by (cases "ui f") simp_all
  show ?case
  proof (cases "elapsed f > 60")
    case True
    with it p r key show ?thesis by simp
  next
    case False
    with key(3) have "quiet_frames its" by simp
    from Cons.IH [OF this, of s1] it p r key False show ?thesis by simp
  qed
qed

lemma active_phase_quiet:
  "quiet_frames its \<Longrightarrow>
   fst (active_phase ar its known_faces student_names attendance_file date_today class_period s)
     = Break"
  using active_loop_quiet [of its ar known_faces student_names attendance_file date_today
      class_period s]
  by (cases "active_loop ar its known_faces student_names attendance_file date_today
               class_period s") (simp add: active_phase_def)

lemma main_loop_quiet:
  "1 \<le> class_period \<Longrightarrow> class_period \<le> 7 \<Longrightarrow> nat (7 - class_period) \<le> length cs \<Longrightarrow>
   list_all quiet_cycle (take (nat (7 - class_period)) cs) \<Longrightarrow>
   fst (main_loop ar cs known_faces student_names attendance_file date_today class_period
          cycle_count s) = Done \<and>
   opened_periods (trace (snd (main_loop ar cs known_faces student_names attendance_file
                                 date_today class_period cycle_count s))) =
     opened_periods (trace s) @ [class_period..6]"
proof (induction cs arbitrary: class_period cycle_count s)
  case Nil
  then have "class_period = 7" by simp
  then show ?case by simp
next
  case (Cons c cs)
  show ?case
  proof (cases "class_period \<le> 6")
    case False
    with Cons.prems have "class_period = 7" by simp
    then show ?thesis by (cases c) simp_all
  next
    case True
    then obtain n where n: "nat (7 - class_period) = Suc n" "nat (7 - (class_period + 1)) = n"
      by (cases "nat (7 - class_period)") (auto simp: nat_eq_iff)
    with Cons.prems have qc: "quiet_cycle c"
      and rest: "n \<le> length cs" "list_all quiet_cycle (take n cs)" by simp_all
    from qc obtain its where c: "c = CameraAvailable its" and q: "quiet_frames its"
      by (cases c) simp_all
    let ?r = "active_phase ar its known_faces student_names attendance_file date_today
                class_period
                (camera_opened class_period (begin_cycle class_period (Suc cycle_count) s))"
    have brk: "fst ?r = Break" using q by (rule active_phase_quiet)
    then have tr: "trace (snd ?r) = trace s @ [CameraOpened class_period, CameraReleased]"
      by (simp add: active_phase_trace cycle_start_trace)
    let ?s = "end_cycle class_period (Suc cycle_count) (snd ?r)"
    have "opened_periods (trace ?s) = opened_periods (trace s) @ [class_period]"
      by (simp add: end_cycle_trace tr opened_periods_append)
    moreover have "1 \<le> class_period + 1" "class_period + 1 \<le> 7"
      using Cons.prems(1) True by simp_all
    moreover note Cons.IH [of "class_period + 1" "Suc cycle_count" ?s] rest n(2)
    moreover have "[class_period..6] = class_period # [class_period + 1..6]"
      using True by (simp add: upto_rec1)
    ultimately show ?thesis
      using True c brk by (simp add: Let_def)
  qed
qed

text \<open>
  Claim C6. In a run with a non-empty gallery whose first six cycles are quiet (the
  camera opens, every read gives a frame, no interrupt, no key \<open>q\<close>, no call without
  answer, and the period ends on the clock), \<open>main\<close> ends with the outcome \<open>Done\<close>,
  and the periods in which the camera was opened are, in this order, 1, 2, 3, 4, 5, 6:
  each once, and no seventh.
\<close>

theorem six_periods_then_done:
  assumes "fst (load_known_faces (dataset env) DATASET_PATH s)
             = Returns (known_faces, student_names)"
    and "known_faces \<noteq> []"
    and "6 \<le> length (cycles env)"
    and "list_all quiet_cycle (take 6 (cycles env))"
  shows "fst (main ar env s) = Done \<and>
         opened_periods (trace (snd (main ar env s))) =
           opened_periods (trace s) @ [1, 2, 3, 4, 5, 6]"
proof -
  obtain s1 where l: "load_known_faces (dataset env) DATASET_PATH s
                        = (Returns (known_faces, student_names), s1)"
    using assms(1) by (cases "load_known_faces (dataset env) DATASET_PATH s") auto
  from main_with_gallery [OF l assms(2), of ar]
  obtain attendance_file s2 where
    m: "main ar env s = main_try ar (cycles env) known_faces student_names attendance_file
                       (today env) s2" and t2: "trace s2 = trace s"
    by blast
  have "[1..6] = [1, 2, 3, 4, 5, 6::int]" by (simp add: upto_rec1)
  with main_loop_quiet [of 1 "cycles env" ar known_faces student_names attendance_file
      "today env" 0 s2] assms(3,4) t2
  show ?thesis by (simp add: m main_try_fst main_try_trace)
qed

subsection \<open>Runs on concrete input\<close>

lemma splitext_alice: "splitext ''alice.jpg'' = (''alice'', ''.jpg'')"
  by (simp add: splitext_def rfind_def)


lemma is_image_alice: "is_image_name ''alice.jpg''"
  by (simp add: is_image_name_def endswith_def)



lemma match_alice: "match_face exact [1, 0] [[1, 0]] [''alice''] = Inr ''alice''"
  by (simp add: match_face_def cosine_distance_exact_e1_e1 py_min_def py_nth_def
      DISTANCE_THRESHOLD_def)

lemma load_one:
  "fst (load_known_faces
          (Some [(''alice.jpg'', Inr [\<lparr>embedding = [1, 0], facial_area = (0, 0, 10, 10)\<rparr>])])
          path s) = Returns ([[1, 0]], [''alice''])"
  by (simp add: load_known_faces_def is_image_alice splitext_alice)


theorem empty_gallery_aborts_witness:
  "fst (load_known_faces None DATASET_PATH start_state) = Returns ([], []) \<and>
   fst (main exact \<lparr>dataset = None, today = ''2024-01-01'', cycles = [CameraAvailable []]\<rparr>
          start_state) = NoGallery \<and>
   trace (snd (main exact \<lparr>dataset = None, today = ''2024-01-01'', cycles = [CameraAvailable []]\<rparr>
                 start_state)) = [] \<and>
   files (snd (main exact \<lparr>dataset = None, today = ''2024-01-01'', cycles = [CameraAvailable []]\<rparr>
                 start_state)) = Map.empty"
  using empty_gallery_aborts [of DATASET_PATH start_state
      "\<lparr>dataset = None, today = ''2024-01-01'', cycles = [CameraAvailable []]\<rparr>" "[]" exact]
  by (simp add: start_state_def)

theorem six_periods_then_done_witness:
  "fst (main exact \<lparr>dataset = Some [(''alice.jpg'',
                   Inr [\<lparr>embedding = [1, 0], facial_area = (0, 0, 10, 10)\<rparr>])],
              today = ''2024-01-01'',
              cycles = replicate 6
                (CameraAvailable [Frame \<lparr>detect = Inr [], ui = Inr (- 1), elapsed = 30\<rparr>,
                                  Frame \<lparr>detect = Inr [], ui = Inr (- 1), elapsed = 61\<rparr>])\<rparr>
         start_state) = Done \<and>
   opened_periods (trace (snd (main exact \<lparr>dataset = Some [(''alice.jpg'',
                   Inr [\<lparr>embedding = [1, 0], facial_area = (0, 0, 10, 10)\<rparr>])],
              today = ''2024-01-01'',
              cycles = replicate 6
                (CameraAvailable [Frame \<lparr>detect = Inr [], ui = Inr (- 1), elapsed = 30\<rparr>,
                                  Frame \<lparr>detect = Inr [], ui = Inr (- 1), elapsed = 61\<rparr>])\<rparr>
         start_state))) = [1, 2, 3, 4, 5, 6]"
proof -
  let ?env = "\<lparr>dataset = Some [(''alice.jpg'',
                   Inr [\<lparr>embedding = [1, 0], facial_area = (0, 0, 10, 10)\<rparr>])],
              today = ''2024-01-01'',
              cycles = replicate 6
                (CameraAvailable [Frame \<lparr>detect = Inr [], ui = Inr (- 1), elapsed = 30\<rparr>,
                                  Frame \<lparr>detect = Inr [], ui = Inr (- 1), elapsed = 61\<rparr>])\<rparr>"
  have h1: "fst (load_known_faces (dataset ?env) DATASET_PATH start_state)
              = Returns ([[1, 0]], [''alice''])"
    by (simp add: load_one)
  have h2: "[[1, 0::real]] \<noteq> []" by simp
  have h3: "6 \<le> length (cycles ?env)" by simp
  have h4: "list_all quiet_cycle (take 6 (cycles ?env))" by (simp add: list_all_iff)
  have "opened_periods (trace start_state) = []" by (simp add: start_state_def)
  with six_periods_then_done [OF h1 h2 h3 h4, of exact] show ?thesis by simp
qed

theorem camera_released_on_every_exit_witness:
  "fst (active_phase exact [Frame \<lparr>detect = Inr [], ui = Inr 113, elapsed = 1\<rparr>]
          [[1, 0]] [''alice''] ''a.csv'' ''2024-01-01'' 1 (camera_opened 1 start_state)) = Return \<and>
   trace (snd (active_phase exact [Frame \<lparr>detect = Inr [], ui = Inr 113, elapsed = 1\<rparr>]
          [[1, 0]] [''alice''] ''a.csv'' ''2024-01-01'' 1 (camera_opened 1 start_state)))
     = [CameraOpened 1, CameraReleased] \<and>
   released_after_open (trace start_state) \<and>
   fst (main exact \<lparr>dataset = Some [(''alice.jpg'',
                   Inr [\<lparr>embedding = [1, 0], facial_area = (0, 0, 10, 10)\<rparr>])],
              today = ''2024-01-01'',
              cycles = [CameraUnavailable, CameraAvailable [NoFrame],
                        CameraAvailable [Frame \<lparr>detect = Inr [], ui = Inr 113, elapsed = 1\<rparr>]]\<rparr>
         start_state) = Cancelled \<and>
   released_after_open (trace (snd (main exact \<lparr>dataset = Some [(''alice.jpg'',
                   Inr [\<lparr>embedding = [1, 0], facial_area = (0, 0, 10, 10)\<rparr>])],
              today = ''2024-01-01'',
              cycles = [CameraUnavailable, CameraAvailable [NoFrame],
                        CameraAvailable [Frame \<lparr>detect = Inr [], ui = Inr 113, elapsed = 1\<rparr>]]\<rparr>
         start_state)))"
proof -
  let ?its = "[Frame \<lparr>detect = Inr [], ui = Inr 113, elapsed = 1\<rparr>]"
  let ?env = "\<lparr>dataset = Some [(''alice.jpg'',
                   Inr [\<lparr>embedding = [1, 0], facial_area = (0, 0, 10, 10)\<rparr>])],
              today = ''2024-01-01'',
              cycles = [CameraUnavailable, CameraAvailable [NoFrame],
                        CameraAvailable ?its]\<rparr>"
  have a: "fst (active_phase exact ?its [[1, 0]] [''alice''] ''a.csv'' ''2024-01-01'' 1 s) = Return"
    for s
    by (simp add: active_phase_def process_frame_def)
  have np: "fst (active_phase exact [NoFrame] [[1, 0]] [''alice''] f d 1 s) = Break" for f d s
    by (simp add: active_phase_def)
  have q: "fst (active_phase exact ?its [[1, 0]] [''alice''] f d 2 s) = Return" for f d s
    by (simp add: active_phase_def process_frame_def)
  obtain s1 where l: "load_known_faces (dataset ?env) DATASET_PATH start_state
                        = (Returns ([[1, 0]], [''alice'']), s1)"
    using load_one [of DATASET_PATH start_state]
    by (cases "load_known_faces (dataset ?env) DATASET_PATH start_state") auto
  from main_with_gallery [OF l, of exact] obtain attendance_file s2 where
    m: "main exact ?env start_state = main_try exact (cycles ?env) [[1, 0]] [''alice''] attendance_file
                                  (today ?env) s2"
    by auto
  have c: "fst (main exact ?env start_state) = Cancelled"
    by (simp add: m main_try_fst np q Let_def)
  have r0: "released_after_open (trace start_state)" by (simp add: start_state_def)
  have t0: "trace start_state = []" by (simp add: start_state_def)
  from camera_released_on_every_exit [of exact ?its "[[1, 0]]" "[''alice'']" "''a.csv''"
      "''2024-01-01''" 1 start_state ?env]
  show ?thesis using a c r0 t0 by simp
qed

subsection \<open>The marked set from period to period\<close>

lemma begin_cycle_forgets:
  "begin_cycle class_period cycle_count (s\<lparr>attendance_set := marked\<rparr>) =
   begin_cycle class_period cycle_count s"
  by (simp add: begin_cycle_def logging_def)

lemma end_cycle_files: "files (end_cycle p c s) = files s"
  by (simp add: end_cycle_def Let_def record_event_def logging_fields)

lemma faces_loop_single_mark:
  assumes "match_face ar (embedding result) known_faces student_names = Inr rollNumber"
    and "rollNumber \<noteq> ''Unknown''"
    and "rollNumber \<notin> attendance_set s"
    and "quiet_remote (remote env)"
  shows "faces_loop ar [(result, env)] known_faces student_names attendance_file date_today
           classPeriod s =
         (Returns (), snd (mark_attendance rollNumber date_today attendance_file classPeriod env s))"
proof -
  have "fst (mark_attendance rollNumber date_today attendance_file classPeriod env s) = Returns ()"
    using assms(3,4)
    by (cases "remote env" rule: quiet_remote.cases) (simp_all add: mark_attendance_fst)
  then obtain s1 where m: "mark_attendance rollNumber date_today attendance_file classPeriod env s
                             = (Returns (), s1)"
    by (cases "mark_attendance rollNumber date_today attendance_file classPeriod env s") auto
  with assms(1,2) show ?thesis by simp
qed

lemma active_phase_single_mark:
  assumes "detect f = Inr [(result, env)]"
    and "match_face ar (embedding result) known_faces student_names = Inr rollNumber"
    and "rollNumber \<noteq> ''Unknown''"
    and "rollNumber \<notin> attendance_set s"
    and "quiet_remote (remote env)"
    and "ui f = Inr key" and "key AND 255 \<noteq> 113" and "elapsed f > 60"
  shows "active_phase ar [Frame f] known_faces student_names attendance_file date_today
           class_period s =
         (Break, record_event CameraReleased
                   (snd (mark_attendance rollNumber date_today attendance_file class_period
                           env s)))"
proof -
  have "process_frame ar (detect f) known_faces student_names attendance_file date_today
          class_period s =
        (Returns (), snd (mark_attendance rollNumber date_today attendance_file class_period
                            env s))"
    using faces_loop_single_mark [OF assms(2-5)] by (simp add: process_frame_def assms(1))
  then show ?thesis using assms(6-8) by (simp add: active_phase_def)
qed

lemma cycle_single_mark:
  assumes "class_period \<le> 6"
    and "detect f = Inr [(result, env)]"
    and "match_face ar (embedding result) known_faces student_names = Inr rollNumber"
    and "rollNumber \<noteq> ''Unknown''"
    and "quiet_remote (remote env)"
    and "ui f = Inr key" and "key AND 255 \<noteq> 113" and "elapsed f > 60"
  shows "\<exists>s1. main_loop ar (CameraAvailable [Frame f] # cs) known_faces student_names
                 attendance_file date_today class_period cycle_count s =
               main_loop ar cs known_faces student_names attendance_file date_today
                 (class_period + 1) (cycle_count + 1) s1 \<and>
              rows_of s1 attendance_file =
                rows_of s attendance_file
                  @ [attendance_row rollNumber date_today (now env) class_period]"
proof -
  let ?s0 = "camera_opened class_period (begin_cycle class_period (cycle_count + 1) s)"
  let ?m = "snd (mark_attendance rollNumber date_today attendance_file class_period env ?s0)"
  have fresh: "rollNumber \<notin> attendance_set ?s0"
    by (simp add: camera_opened_fields begin_cycle_fields)
  have a: "active_phase ar [Frame f] known_faces student_names attendance_file date_today
             class_period ?s0 = (Break, record_event CameraReleased ?m)"
    using assms(2,3,4) fresh assms(5-8) by (rule active_phase_single_mark)
  let ?s1 = "end_cycle class_period (cycle_count + 1) (record_event CameraReleased ?m)"
  have "rows_of ?s0 attendance_file = rows_of s attendance_file"
    by (rule rows_of_cong) (simp add: camera_opened_fields begin_cycle_fields)
  then have "rows_of ?m attendance_file =
      rows_of s attendance_file @ [attendance_row rollNumber date_today (now env) class_period]"
    using rows_of_mark_fresh [OF fresh] by simp
  moreover have "rows_of ?s1 attendance_file = rows_of ?m attendance_file"
    by (rule rows_of_cong) (simp add: end_cycle_files record_event_def)
  moreover have "main_loop ar (CameraAvailable [Frame f] # cs) known_faces student_names
                 attendance_file date_today class_period cycle_count s =
               main_loop ar cs known_faces student_names attendance_file date_today
                 (class_period + 1) (cycle_count + 1) ?s1"
    using assms(1) a by (simp add: Let_def)
  ultimately show ?thesis by (intro exI [of _ ?s1]) simp
qed

lemma main_loop_forgets:
  "class_period \<le> 6 \<Longrightarrow>
   main_loop ar (c # cs) known_faces student_names attendance_file date_today class_period
     cycle_count (s\<lparr>attendance_set := marked\<rparr>) =
   main_loop ar (c # cs) known_faces student_names attendance_file date_today class_period
     cycle_count s"
  by (cases c) (simp_all add: begin_cycle_forgets)

text \<open>
  Claim C3. The marked set does not cross periods. Whatever set of marked identities
  the state holds when an iteration of the outer loop of \<open>main\<close> starts, the loop goes
  on as it does from the same state with any other set: each iteration replaces the set
  by a fresh one. And when, in two successive periods, the same identity is recognised in
  a frame (and the period then ends on the clock), the loop leaves the attendance file
  with two new rows for that identity, one for each period, whatever the state it
  started from.
\<close>

theorem fresh_marked_set_each_period:
  "(class_period \<le> 6 \<longrightarrow>
      main_loop ar (c # cs) known_faces student_names attendance_file date_today class_period
        cycle_count (s\<lparr>attendance_set := marked\<rparr>) =
      main_loop ar (c # cs) known_faces student_names attendance_file date_today class_period
        cycle_count s) \<and>
   (class_period \<le> 5 \<and>
    detect first_frame = Inr [(first_face, first_env)] \<and> detect second_frame = Inr [(second_face, second_env)] \<and>
    match_face ar (embedding first_face) known_faces student_names = Inr rollNumber \<and>
    match_face ar (embedding second_face) known_faces student_names = Inr rollNumber \<and>
    rollNumber \<noteq> ''Unknown'' \<and>
    quiet_remote (remote first_env) \<and> quiet_remote (remote second_env) \<and>
    ui first_frame = Inr first_key \<and> first_key AND 255 \<noteq> 113 \<and> elapsed first_frame > 60 \<and>
    ui second_frame = Inr second_key \<and> second_key AND 255 \<noteq> 113 \<and> elapsed second_frame > 60 \<longrightarrow>
      rows_of (snd (main_loop ar [CameraAvailable [Frame first_frame], CameraAvailable [Frame second_frame]]
                      known_faces student_names attendance_file date_today class_period
                      cycle_count s)) attendance_file =
        rows_of s attendance_file
          @ [attendance_row rollNumber date_today (now first_env) class_period,
             attendance_row rollNumber date_today (now second_env) (class_period + 1)])"
proof (intro conjI impI)
  assume "class_period \<le> 6"
  then show "main_loop ar (c # cs) known_faces student_names attendance_file date_today
        class_period cycle_count (s\<lparr>attendance_set := marked\<rparr>) =
      main_loop ar (c # cs) known_faces student_names attendance_file date_today class_period
        cycle_count s"
    by (rule main_loop_forgets)
next
  assume h: "class_period \<le> 5 \<and>
    detect first_frame = Inr [(first_face, first_env)] \<and> detect second_frame = Inr [(second_face, second_env)] \<and>
    match_face ar (embedding first_face) known_faces student_names = Inr rollNumber \<and>
    match_face ar (embedding second_face) known_faces student_names = Inr rollNumber \<and>
    rollNumber \<noteq> ''Unknown'' \<and>
    quiet_remote (remote first_env) \<and> quiet_remote (remote second_env) \<and>
    ui first_frame = Inr first_key \<and> first_key AND 255 \<noteq> 113 \<and> elapsed first_frame > 60 \<and>
    ui second_frame = Inr second_key \<and> second_key AND 255 \<noteq> 113 \<and> elapsed second_frame > 60"
  then have p1: "class_period \<le> 6" and p2: "class_period + 1 \<le> 6" by simp_all
  from h cycle_single_mark [OF p1, of first_frame first_face first_env ar known_faces student_names rollNumber
      first_key "[CameraAvailable [Frame second_frame]]" attendance_file date_today cycle_count s]
  obtain s1 where s1:
    "main_loop ar [CameraAvailable [Frame first_frame], CameraAvailable [Frame second_frame]] known_faces
       student_names attendance_file date_today class_period cycle_count s =
     main_loop ar [CameraAvailable [Frame second_frame]] known_faces student_names attendance_file
       date_today (class_period + 1) (cycle_count + 1) s1"
    "rows_of s1 attendance_file =
       rows_of s attendance_file
         @ [attendance_row rollNumber date_today (now first_env) class_period]"
    by blast
  from h cycle_single_mark [OF p2, of second_frame second_face second_env ar known_faces student_names rollNumber
      second_key "[]" attendance_file date_today "cycle_count + 1" s1]
  obtain s2 where s2:
    "main_loop ar [CameraAvailable [Frame second_frame]] known_faces student_names attendance_file
       date_today (class_period + 1) (cycle_count + 1) s1 =
     main_loop ar [] known_faces student_names attendance_file date_today
       (class_period + 1 + 1) (cycle_count + 1 + 1) s2"
    "rows_of s2 attendance_file =
       rows_of s1 attendance_file
         @ [attendance_row rollNumber date_today (now second_env) (class_period + 1)]"
    by blast
  have "snd (main_loop ar [] known_faces student_names attendance_file date_today
               (class_period + 1 + 1) (cycle_count + 1 + 1) s2) = s2"
    by simp
  with s1 s2 show "rows_of (snd (main_loop ar [CameraAvailable [Frame first_frame], CameraAvailable [Frame second_frame]]
                      known_faces student_names attendance_file date_today class_period
                      cycle_count s)) attendance_file =
        rows_of s attendance_file
          @ [attendance_row rollNumber date_today (now first_env) class_period,
             attendance_row rollNumber date_today (now second_env) (class_period + 1)]"
    by simp
qed

text \<open>
  The theorem at periods 1 and 2, from a state in which \<open>alice\<close> is already in the
  set.
\<close>

theorem fresh_marked_set_each_period_witness:
  "main_loop exact
     [CameraAvailable [Frame \<lparr>detect = Inr [(\<lparr>embedding = [1, 0], facial_area = (2, 2, 8, 8)\<rparr>,
                                 \<lparr>now = ''09:00:00'', remote = Responds 200 ''ok''\<rparr>)],
                              ui = Inr (- 1), elapsed = 61\<rparr>],
      CameraAvailable [Frame \<lparr>detect = Inr [(\<lparr>embedding = [1, 0], facial_area = (2, 2, 8, 8)\<rparr>,
                                 \<lparr>now = ''09:02:00'', remote = Responds 200 ''ok''\<rparr>)],
                              ui = Inr (- 1), elapsed = 61\<rparr>]]
     [[1, 0]] [''alice''] ''a.csv'' ''2024-01-01'' 1 0
     (start_state\<lparr>attendance_set := {''alice''}\<rparr>) =
   main_loop exact
     [CameraAvailable [Frame \<lparr>detect = Inr [(\<lparr>embedding = [1, 0], facial_area = (2, 2, 8, 8)\<rparr>,
                                 \<lparr>now = ''09:00:00'', remote = Responds 200 ''ok''\<rparr>)],
                              ui = Inr (- 1), elapsed = 61\<rparr>],
      CameraAvailable [Frame \<lparr>detect = Inr [(\<lparr>embedding = [1, 0], facial_area = (2, 2, 8, 8)\<rparr>,
                                 \<lparr>now = ''09:02:00'', remote = Responds 200 ''ok''\<rparr>)],
                              ui = Inr (- 1), elapsed = 61\<rparr>]]
     [[1, 0]] [''alice''] ''a.csv'' ''2024-01-01'' 1 0 start_state \<and>
   match_face exact [1, 0] [[1, 0]] [''alice''] = Inr ''alice'' \<and>
   rows_of (snd (main_loop exact
     [CameraAvailable [Frame \<lparr>detect = Inr [(\<lparr>embedding = [1, 0], facial_area = (2, 2, 8, 8)\<rparr>,
                                 \<lparr>now = ''09:00:00'', remote = Responds 200 ''ok''\<rparr>)],
                              ui = Inr (- 1), elapsed = 61\<rparr>],
      CameraAvailable [Frame \<lparr>detect = Inr [(\<lparr>embedding = [1, 0], facial_area = (2, 2, 8, 8)\<rparr>,
                                 \<lparr>now = ''09:02:00'', remote = Responds 200 ''ok''\<rparr>)],
                              ui = Inr (- 1), elapsed = 61\<rparr>]]
     [[1, 0]] [''alice''] ''a.csv'' ''2024-01-01'' 1 0
     (start_state\<lparr>attendance_set := {''alice''}\<rparr>))) ''a.csv'' =
     [[''alice'', ''2024-01-01'', ''09:00:00'', ''Present'', ''Class 1''],
      [''alice'', ''2024-01-01'', ''09:02:00'', ''Present'', ''Class 2'']]"
proof -
  let ?r = "\<lparr>embedding = [1, 0], facial_area = (2, 2, 8, 8)\<rparr>"
  let ?e1 = "\<lparr>now = ''09:00:00'', remote = Responds 200 ''ok''\<rparr>"
  let ?e2 = "\<lparr>now = ''09:02:00'', remote = Responds 200 ''ok''\<rparr>"
  let ?f1 = "\<lparr>detect = Inr [(?r, ?e1)], ui = Inr (- 1), elapsed = 61\<rparr>"
  let ?f2 = "\<lparr>detect = Inr [(?r, ?e2)], ui = Inr (- 1), elapsed = 61\<rparr>"
  let ?s = "start_state\<lparr>attendance_set := {''alice''}\<rparr>"
  note t = fresh_marked_set_each_period [where class_period = 1 and ar = exact
      and c = "CameraAvailable [Frame ?f1]" and cs = "[CameraAvailable [Frame ?f2]]"
      and known_faces = "[[1, 0]]" and student_names = "[''alice'']"
      and attendance_file = "''a.csv''" and date_today = "''2024-01-01''" and cycle_count = 0
      and s = start_state and marked = "{''alice''}"]
  note u = fresh_marked_set_each_period [where class_period = 1 and ar = exact
      and known_faces = "[[1, 0]]" and student_names = "[''alice'']"
      and attendance_file = "''a.csv''" and date_today = "''2024-01-01''" and cycle_count = 0
      and s = ?s and first_frame = ?f1 and first_face = ?r and first_env = ?e1 and second_frame = ?f2 and second_face = ?r
      and second_env = ?e2 and rollNumber = "''alice''" and first_key = "- 1" and second_key = "- 1"]
  have m: "match_face exact [1, 0] [[1, 0]] [''alice''] = Inr ''alice''" by (rule match_alice)
  have "rows_of ?s ''a.csv'' = []" by (simp add: rows_of_def start_state_def)
  with t u m show ?thesis
    by (simp add: attendance_row_def str_int_digit digit_char_def)
qed

subsection \<open>A remote that never answers\<close>

lemma faces_loop_blocks:
  assumes "match_face ar (embedding result) known_faces student_names = Inr rollNumber"
    and "rollNumber \<noteq> ''Unknown''"
    and "rollNumber \<notin> attendance_set s"
    and "remote env = Silent"
  shows "fst (faces_loop ar ((result, env) # others) known_faces student_names attendance_file
                date_today classPeriod s) = Blocks"
proof -
  have "fst (mark_attendance rollNumber date_today attendance_file classPeriod env s) = Blocks"
    using assms(3,4) by (simp add: mark_attendance_fst)
  then obtain s1 where "mark_attendance rollNumber date_today attendance_file classPeriod env s
                          = (Blocks, s1)"
    by (cases "mark_attendance rollNumber date_today attendance_file classPeriod env s") auto
  with assms(1,2) show ?thesis by simp
qed

lemma active_loop_hangs:
  assumes "detect f = Inr ((result, env) # others)"
    and "match_face ar (embedding result) known_faces student_names = Inr rollNumber"
    and "rollNumber \<noteq> ''Unknown''"
    and "rollNumber \<notin> attendance_set s"
    and "remote env = Silent"
  shows "fst (active_loop ar (Frame f # its) known_faces student_names attendance_file
                date_today class_period s) = Hang"
proof -
  obtain r s1 where fl: "faces_loop ar ((result, env) # others) known_faces student_names
                            attendance_file date_today class_period s = (r, s1)"
    by (cases "faces_loop ar ((result, env) # others) known_faces student_names
                            attendance_file date_today class_period s")
  with faces_loop_blocks [OF assms(2-5), of others attendance_file date_today class_period]
  have "r = Blocks" by simp
  with fl have "process_frame ar (detect f) known_faces student_names attendance_file
                  date_today class_period s = (Blocks, s1)"
    by (simp add: process_frame_def assms(1))
  then show ?thesis by simp
qed

text \<open>
  Claim C9, amended. The remote forward call is made without a timeout: when the remote
  never answers, the call of \<open>mark_attendance\<close> does not return, and neither does the
  frame loop that called it for a recognised face, whatever frames would follow. A
  forwarding call that raises an exception (as a call that timed out would) is a
  forwarding failure: \<open>mark_attendance\<close> logs it as an error and returns normally.
\<close>

theorem remote_call_without_timeout:
  "timeout (attendance_request rollNumber date_today time_str classPeriod) = None \<and>
   (rollNumber \<notin> attendance_set s \<and> remote env = Silent \<longrightarrow>
      fst (mark_attendance rollNumber date_today attendance_file classPeriod env s) = Blocks) \<and>
   (detect f = Inr ((result, env) # others) \<and>
    match_face ar (embedding result) known_faces student_names = Inr rollNumber \<and>
    rollNumber \<noteq> ''Unknown'' \<and> rollNumber \<notin> attendance_set s \<and> remote env = Silent \<longrightarrow>
      fst (active_loop ar (Frame f # its) known_faces student_names attendance_file
             date_today classPeriod s) = Hang) \<and>
   (rollNumber \<notin> attendance_set s \<and> remote env = Fails (Exception msg) \<longrightarrow>
      fst (mark_attendance rollNumber date_today attendance_file classPeriod env s) = Returns () \<and>
      last (log (snd (mark_attendance rollNumber date_today attendance_file classPeriod env s)))
        = (ERROR, ''Error sending attendance to backend: '' @ msg))"
proof (intro conjI impI)
  show "timeout (attendance_request rollNumber date_today time_str classPeriod) = None"
    by (simp add: attendance_request_def)
next
  assume "rollNumber \<notin> attendance_set s \<and> remote env = Silent"
  then show "fst (mark_attendance rollNumber date_today attendance_file classPeriod env s)
               = Blocks"
    by (simp add: mark_attendance_fst)
next
  assume "detect f = Inr ((result, env) # others) \<and>
    match_face ar (embedding result) known_faces student_names = Inr rollNumber \<and>
    rollNumber \<noteq> ''Unknown'' \<and> rollNumber \<notin> attendance_set s \<and> remote env = Silent"
  then show "fst (active_loop ar (Frame f # its) known_faces student_names attendance_file
             date_today classPeriod s) = Hang"
    by (blast intro: active_loop_hangs)
next
  assume a: "rollNumber \<notin> attendance_set s \<and> remote env = Fails (Exception msg)"
  then show "fst (mark_attendance rollNumber date_today attendance_file classPeriod env s)
               = Returns ()"
    by (simp add: mark_attendance_fst)
  from a show "last (log (snd (mark_attendance rollNumber date_today attendance_file
                                 classPeriod env s)))
        = (ERROR, ''Error sending attendance to backend: '' @ msg)"
    by (simp add: mark_attendance_def Let_def requests_post_def logging_def
        attendance_request_def)
qed

theorem remote_call_without_timeout_witness:
  "''alice'' \<notin> attendance_set start_state \<and>
   match_face exact [1, 0] [[1, 0]] [''alice''] = Inr ''alice'' \<and>
   fst (mark_attendance ''alice'' ''2024-01-01'' ''a.csv'' 1
          \<lparr>now = ''09:00:00'', remote = Silent\<rparr> start_state) = Blocks \<and>
   fst (active_loop exact
          [Frame \<lparr>detect = Inr [(\<lparr>embedding = [1, 0], facial_area = (0, 0, 10, 10)\<rparr>,
                                  \<lparr>now = ''09:00:00'', remote = Silent\<rparr>)],
                  ui = Inr (- 1), elapsed = 1\<rparr>,
           Frame \<lparr>detect = Inr [], ui = Inr (- 1), elapsed = 61\<rparr>]
          [[1, 0]] [''alice''] ''a.csv'' ''2024-01-01'' 1 start_state) = Hang \<and>
   fst (mark_attendance ''alice'' ''2024-01-01'' ''a.csv'' 1
          \<lparr>now = ''09:00:00'', remote = Fails (Exception ''timed out'')\<rparr> start_state)
     = Returns () \<and>
   last (log (snd (mark_attendance ''alice'' ''2024-01-01'' ''a.csv'' 1
          \<lparr>now = ''09:00:00'', remote = Fails (Exception ''timed out'')\<rparr> start_state)))
     = (ERROR, ''Error sending attendance to backend: timed out'')"
proof -
  let ?r = "\<lparr>embedding = [1, 0], facial_area = (0, 0, 10, 10)\<rparr>"
  let ?silent = "\<lparr>now = ''09:00:00'', remote = Silent\<rparr>"
  let ?fails = "\<lparr>now = ''09:00:00'', remote = Fails (Exception ''timed out'')\<rparr>"
  let ?f = "\<lparr>detect = Inr [(?r, ?silent)], ui = Inr (- 1), elapsed = 1\<rparr>"
  have h: "''alice'' \<notin> attendance_set start_state" by (simp add: start_state_def)
  have m: "match_face exact [1, 0] [[1, 0]] [''alice''] = Inr ''alice''" by (rule match_alice)
  note a = remote_call_without_timeout [where rollNumber = "''alice''" and s = start_state
      and env = ?silent and f = ?f and result = ?r and others = "[]" and ar = exact
      and known_faces = "[[1, 0]]" and student_names = "[''alice'']"
      and attendance_file = "''a.csv''" and date_today = "''2024-01-01''" and classPeriod = 1
      and its = "[Frame \<lparr>detect = Inr [], ui = Inr (- 1), elapsed = 61\<rparr>]"]
  note b = remote_call_without_timeout [where rollNumber = "''alice''" and s = start_state
      and env = ?fails and msg = "''timed out''"
      and attendance_file = "''a.csv''" and date_today = "''2024-01-01''" and classPeriod = 1]
  from a b h m show ?thesis by simp
qed

text \<open>
  A run from loading to cancellation: \<open>alice\<close> is seen twice in period 1 and once in
  period 2, where the forwarding fails and the quit key is pressed. The attendance file
  holds the header and one row for each of the two periods, and two requests were made.
\<close>

lemma main_two_periods_example:
  "main exact \<lparr>dataset = Some [(''alice.jpg'',
                 Inr [\<lparr>embedding = [1, 0], facial_area = (0, 0, 10, 10)\<rparr>])],
         today = ''2024-01-01'',
         cycles =
           [CameraAvailable
              [Frame \<lparr>detect = Inr [(\<lparr>embedding = [1, 0], facial_area = (2, 2, 8, 8)\<rparr>,
                                      \<lparr>now = ''09:00:00'', remote = Responds 200 ''ok''\<rparr>)],
                      ui = Inr (- 1), elapsed = 30\<rparr>,
               Frame \<lparr>detect = Inr [(\<lparr>embedding = [1, 0], facial_area = (2, 2, 8, 8)\<rparr>,
                                      \<lparr>now = ''09:00:30'', remote = Responds 200 ''ok''\<rparr>)],
                      ui = Inr (- 1), elapsed = 61\<rparr>],
            CameraAvailable
              [Frame \<lparr>detect = Inr [(\<lparr>embedding = [1, 0], facial_area = (2, 2, 8, 8)\<rparr>,
                                      \<lparr>now = ''09:02:00'', remote = Fails (Exception ''refused'')\<rparr>)],
                      ui = Inr 113, elapsed = 5\<rparr>]]\<rparr>
     start_state = (r, s) \<Longrightarrow>
   r = Cancelled \<and>
   rows_of s ''attendance_2024-01-01.csv'' =
     [[''Name'', ''Date'', ''Time'', ''Status'', ''Class Period''],
      [''alice'', ''2024-01-01'', ''09:00:00'', ''Present'', ''Class 1''],
      [''alice'', ''2024-01-01'', ''09:02:00'', ''Present'', ''Class 2'']] \<and>
   length (posts s) = 2 \<and>
   trace s = [CameraOpened 1, CameraReleased, Slept 10, CameraOpened 2, CameraReleased]"
  by (auto simp: main_def load_known_faces_def is_image_alice splitext_alice
      initialize_attendance_def start_state_def Let_def logging_def main_try_def
      begin_cycle_def camera_opened_def end_cycle_def record_event_def active_phase_def
      process_frame_def match_alice mark_attendance_def append_row_def requests_post_def
      attendance_request_def attendance_row_def rows_of_def str_int_digit digit_char_def)

end
